theory Spec2Isabelle
  imports Complex_Main
begin

section \<open>Python values\<close>

text \<open>
  The two parsers of the framework, \<^verbatim>\<open>cognitest/core/bug_classifier.py\<close> and
  \<^verbatim>\<open>cognitest/core/log_interpreter.py\<close>, are embedded function by function.
  A Python \<^verbatim>\<open>str\<close> is a \<^typ>\<open>string\<close> in which every \<^typ>\<open>char\<close> stands for one
  code point, so \<^const>\<open>length\<close> counts what \<^verbatim>\<open>len\<close> counts; the strings covered
  are those whose code points lie below 256. Every exception the code can raise is a
  value of \<open>py_error\<close>, and a function that can raise returns \<open>py_error + 'a\<close>.
\<close>

datatype py_error =
    JSONDecodeError
  | TypeError
  | OverflowError
  | KeyError
  | ZeroDivisionError
  | ExternalError string

text \<open>
  A Python \<^verbatim>\<open>float\<close> is an IEEE 754 binary64 number: a finite value, an infinity
  or a NaN. The two zeros are one value here; Python's \<^verbatim>\<open>==\<close> does not tell them
  apart either, and no comparison made by the code does.
\<close>

datatype pyfloat = Fin real | PosInf | NegInf | NaN

text \<open>The values a decoded JSON text and the dictionaries built by the code can hold.\<close>

datatype pyval =
    PNone
  | PBool bool
  | PInt int
  | PFloat pyfloat
  | PStr string
  | PList "pyval list"
  | PDict "(string \<times> pyval) list"

text \<open>
  A \<^verbatim>\<open>dict\<close> with string keys is an association list in insertion order;
  \<^const>\<open>map_of\<close> is the lookup. Assigning to a key that is present keeps its place,
  assigning to a new key appends it, as in Python.
\<close>

type_synonym pydict = "(string \<times> pyval) list"

fun dict_set :: "'k \<Rightarrow> 'v \<Rightarrow> ('k \<times> 'v) list \<Rightarrow> ('k \<times> 'v) list" where
  "dict_set k v [] = [(k, v)]"
| "dict_set k v ((k', v') # ps) =
     (if k' = k then (k, v) # ps else (k', v') # dict_set k v ps)"

definition dict_get :: "('k \<times> 'v) list \<Rightarrow> 'k \<Rightarrow> 'v \<Rightarrow> 'v" where
  "dict_get d k dflt = (case map_of d k of None \<Rightarrow> dflt | Some v \<Rightarrow> v)"

subsection \<open>Binary64 arithmetic\<close>

text \<open>
  Every arithmetic operation on floats returns the exact result rounded to the nearest
  binary64 number, ties to the even significand. \<open>bit_length n\<close> is Python's
  \<^verbatim>\<open>n.bit_length()\<close>, \<open>ilog2 q\<close> is \<open>\<lfloor>log\<^sub>2 q\<rfloor>\<close> for a positive \<open>q\<close>, and
  \<open>round_double\<close> rounds with a 53-bit significand, the subnormal spacing
  \<open>2\<^sup>-\<^sup>1\<^sup>0\<^sup>7\<^sup>4\<close> at the bottom of the range and an infinity past the top of it.
\<close>

fun bit_length :: "nat \<Rightarrow> nat" where
  "bit_length n = (if n = 0 then 0 else Suc (bit_length (n div 2)))"

declare bit_length.simps [simp del]

definition pow2 :: "int \<Rightarrow> real" where
  "pow2 e = (if 0 \<le> e then 2 ^ nat e else 1 / 2 ^ nat (- e))"

definition ilog2 :: "real \<Rightarrow> int" where
  "ilog2 q =
     (if 1 \<le> q then int (bit_length (nat \<lfloor>q\<rfloor>)) - 1
      else - int (bit_length (nat (\<lceil>1 / q\<rceil> - 1))))"

definition round_half_even :: "real \<Rightarrow> int" where
  "round_half_even x =
     (let f = \<lfloor>x\<rfloor>; r = x - of_int f
      in if r < 1 / 2 then f
         else if 1 / 2 < r then f + 1
         else if even f then f else f + 1)"

definition round_double :: "real \<Rightarrow> pyfloat" where
  "round_double q =
     (if q = 0 then Fin 0
      else let e = max (ilog2 \<bar>q\<bar> - 52) (- 1074);
               r = of_int (round_half_even (q / pow2 e)) * pow2 e
           in if 2 ^ 1024 \<le> r then PosInf
              else if r \<le> - (2 ^ 1024) then NegInf
              else Fin r)"

fun fmul :: "pyfloat \<Rightarrow> pyfloat \<Rightarrow> pyfloat" where
  "fmul (Fin a) (Fin b) = round_double (a * b)"
| "fmul NaN _ = NaN"
| "fmul _ NaN = NaN"
| "fmul (Fin a) PosInf = (if a = 0 then NaN else if 0 < a then PosInf else NegInf)"
| "fmul (Fin a) NegInf = (if a = 0 then NaN else if 0 < a then NegInf else PosInf)"
| "fmul PosInf (Fin b) = (if b = 0 then NaN else if 0 < b then PosInf else NegInf)"
| "fmul NegInf (Fin b) = (if b = 0 then NaN else if 0 < b then NegInf else PosInf)"
| "fmul PosInf PosInf = PosInf"
| "fmul PosInf NegInf = NegInf"
| "fmul NegInf PosInf = NegInf"
| "fmul NegInf NegInf = PosInf"

fun fadd :: "pyfloat \<Rightarrow> pyfloat \<Rightarrow> pyfloat" where
  "fadd (Fin a) (Fin b) = round_double (a + b)"
| "fadd NaN _ = NaN"
| "fadd _ NaN = NaN"
| "fadd PosInf NegInf = NaN"
| "fadd NegInf PosInf = NaN"
| "fadd PosInf _ = PosInf"
| "fadd _ PosInf = PosInf"
| "fadd NegInf _ = NegInf"
| "fadd _ NegInf = NegInf"

text \<open>Float division raises \<^verbatim>\<open>ZeroDivisionError\<close> on a zero divisor.\<close>

fun fdiv :: "pyfloat \<Rightarrow> pyfloat \<Rightarrow> py_error + pyfloat" where
  "fdiv a (Fin b) =
     (if b = 0 then Inl ZeroDivisionError
      else Inr (case a of
                  Fin x \<Rightarrow> round_double (x / b)
                | PosInf \<Rightarrow> (if 0 < b then PosInf else NegInf)
                | NegInf \<Rightarrow> (if 0 < b then NegInf else PosInf)
                | NaN \<Rightarrow> NaN))"
| "fdiv NaN _ = Inr NaN"
| "fdiv _ NaN = Inr NaN"
| "fdiv (Fin a) _ = Inr (Fin 0)"
| "fdiv _ _ = Inr NaN"

text \<open>
  Converting an \<^verbatim>\<open>int\<close> to a float rounds the same way and raises
  \<^verbatim>\<open>OverflowError\<close> where the result would not be finite. \<open>as_float\<close> is the
  coercion float arithmetic applies to its other operand: \<^verbatim>\<open>bool\<close> is a subclass of
  \<^verbatim>\<open>int\<close>, and anything that is not a number raises \<^verbatim>\<open>TypeError\<close>.
\<close>

definition float_of_int :: "int \<Rightarrow> py_error + pyfloat" where
  "float_of_int n =
     (case round_double (of_int n) of Fin r \<Rightarrow> Inr (Fin r) | _ \<Rightarrow> Inl OverflowError)"

fun as_float :: "pyval \<Rightarrow> py_error + pyfloat" where
  "as_float (PBool b) = Inr (Fin (if b then 1 else 0))"
| "as_float (PInt n) = float_of_int n"
| "as_float (PFloat f) = Inr f"
| "as_float _ = Inl TypeError"

definition float_times :: "pyfloat \<Rightarrow> pyval \<Rightarrow> py_error + pyfloat" where
  "float_times f v = (case as_float v of Inl e \<Rightarrow> Inl e | Inr x \<Rightarrow> Inr (fmul f x))"

text \<open>
  \<^verbatim>\<open>v < k\<close> and \<^verbatim>\<open>v > k\<close> for an \<^verbatim>\<open>int\<close> constant \<open>k\<close>. Python compares an
  \<^verbatim>\<open>int\<close> with a float exactly; every comparison with a NaN is false; comparing a
  string, a list, a dict or \<^verbatim>\<open>None\<close> with an \<^verbatim>\<open>int\<close> raises \<^verbatim>\<open>TypeError\<close>.
\<close>

fun py_lt :: "pyval \<Rightarrow> int \<Rightarrow> py_error + bool" where
  "py_lt (PBool b) k = Inr ((if b then 1 else 0) < k)"
| "py_lt (PInt n) k = Inr (n < k)"
| "py_lt (PFloat (Fin r)) k = Inr (r < of_int k)"
| "py_lt (PFloat PosInf) k = Inr False"
| "py_lt (PFloat NegInf) k = Inr True"
| "py_lt (PFloat NaN) k = Inr False"
| "py_lt _ k = Inl TypeError"

fun py_gt :: "pyval \<Rightarrow> int \<Rightarrow> py_error + bool" where
  "py_gt (PBool b) k = Inr (k < (if b then 1 else 0))"
| "py_gt (PInt n) k = Inr (k < n)"
| "py_gt (PFloat (Fin r)) k = Inr (of_int k < r)"
| "py_gt (PFloat PosInf) k = Inr True"
| "py_gt (PFloat NegInf) k = Inr False"
| "py_gt (PFloat NaN) k = Inr False"
| "py_gt _ k = Inl TypeError"

text \<open>
  \<^verbatim>\<open>min(k, v)\<close> keeps its first argument unless \<^verbatim>\<open>v < k\<close>, and \<^verbatim>\<open>max(k, v)\<close>
  keeps it unless \<^verbatim>\<open>v > k\<close>; the value returned is one of the two arguments, with
  its type.
\<close>

definition py_min :: "int \<Rightarrow> pyval \<Rightarrow> py_error + pyval" where
  "py_min k v = (case py_lt v k of Inl e \<Rightarrow> Inl e | Inr b \<Rightarrow> Inr (if b then v else PInt k))"

definition py_max :: "int \<Rightarrow> pyval \<Rightarrow> py_error + pyval" where
  "py_max k v = (case py_gt v k of Inl e \<Rightarrow> Inl e | Inr b \<Rightarrow> Inr (if b then v else PInt k))"

subsection \<open>Strings\<close>

text \<open>
  \<^verbatim>\<open>str.lower()\<close> on the code points below 256: the letters \<^verbatim>\<open>A\<close> to \<^verbatim>\<open>Z\<close> and the
  accented capitals from U+00C0 to U+00DE (the multiplication sign U+00D7 apart) move up
  by 32; every other code point is its own lower case.
\<close>

definition lower_char :: "char \<Rightarrow> char" where
  "lower_char c =
     (let n = (of_char c :: nat)
      in if (65 \<le> n \<and> n \<le> 90) \<or> (192 \<le> n \<and> n \<le> 222 \<and> n \<noteq> 215)
         then char_of (n + 32) else c)"

definition py_lower :: "string \<Rightarrow> string" where
  "py_lower s = map lower_char s"

text \<open>\<^verbatim>\<open>s.startswith(p)\<close>, and \<^verbatim>\<open>needle in haystack\<close> for two strings.\<close>

fun starts_with :: "string \<Rightarrow> string \<Rightarrow> bool" where
  "starts_with s [] = True"
| "starts_with [] (p # ps) = False"
| "starts_with (c # cs) (p # ps) = (c = p \<and> starts_with cs ps)"

fun str_contains :: "string \<Rightarrow> string \<Rightarrow> bool" where
  "str_contains needle [] = (needle = [])"
| "str_contains needle (c # cs) = (starts_with (c # cs) needle \<or> str_contains needle cs)"

section \<open>The bug classifier\<close>

subsection \<open>Collaborators\<close>

text \<open>
  \<^verbatim>\<open>class Severity(Enum)\<close> and the value of each member.
\<close>

datatype Severity = CRITICAL | HIGH | MEDIUM | LOW

fun severity_value :: "Severity \<Rightarrow> string" where
  "severity_value CRITICAL = ''Critical''"
| "severity_value HIGH = ''High''"
| "severity_value MEDIUM = ''Medium''"
| "severity_value LOW = ''Low''"

text \<open>\<^verbatim>\<open>PromptTemplates.bug_classification_prompt\<close>, an f-string.\<close>

definition bug_classification_prompt :: "string \<Rightarrow> string \<Rightarrow> string \<Rightarrow> string" where
  "bug_classification_prompt error_message test_context endpoint =
     concat
      [''You are a senior QA engineer analyzing a software bug. Classify the severity of this bug based on business impact, frequency, and recovery difficulty.\<newline>'',
       ''\<newline>'',
       ''**Failed Test Context:**\<newline>'',
       test_context,
       ''\<newline>'',
       ''\<newline>'',
       ''**Error Message:**\<newline>'',
       error_message,
       ''\<newline>'',
       ''\<newline>'',
       ''**Affected Endpoint:**\<newline>'',
       endpoint,
       ''\<newline>'',
       ''\<newline>'',
       ''**Classification Criteria:**\<newline>'',
       ''- **Critical**: Data loss, security vulnerabilities, system crashes, complete feature failure\<newline>'',
       ''- **High**: Major functionality broken, significant user impact, no workaround\<newline>'',
       ''- **Medium**: Partial functionality broken, moderate user impact, workaround available\<newline>'',
       ''- **Low**: Minor issues, cosmetic problems, negligible user impact\<newline>'',
       ''\<newline>'',
       ''**Scoring Factors:**\<newline>'',
       ''1. **Impact** (0-10): Business criticality and data integrity\<newline>'',
       ''2. **Frequency** (0-10): How often users encounter this\<newline>'',
       ''3. **Recovery** (0-10): Difficulty of workaround or fix\<newline>'',
       ''\<newline>'',
       ''**Output Format:**\<newline>'',
       ''Provide your analysis in EXACTLY this JSON format (no additional text):\<newline>'',
       ''{\<newline>'',
       ''    \"severity\": \"Critical|High|Medium|Low\",\<newline>'',
       ''    \"impact_score\": <0-10>,\<newline>'',
       ''    \"frequency_score\": <0-10>,\<newline>'',
       ''    \"recovery_score\": <0-10>,\<newline>'',
       ''    \"weighted_score\": <calculated using weights 0.5, 0.3, 0.2>,\<newline>'',
       ''    \"reasoning\": \"Brief explanation of classification\"\<newline>'',
       ''}\<newline>'',
       ''\<newline>'',
       ''Analyze and classify now:'']"
text \<open>
  Two collaborators are not code of the framework and are parameters of the functions
  that call them. The first is \<^verbatim>\<open>LLMEngine.generate(prompt, temperature=t)\<close>, which
  runs the language model: it returns a text or raises. The second is
  \<^verbatim>\<open>json.loads\<close> of Python's standard library. It is only ever applied to a text that
  begins with an opening brace, where it returns a \<^verbatim>\<open>dict\<close> or raises; that the
  exception is a \<^verbatim>\<open>JSONDecodeError\<close> is not assumed.
\<close>

type_synonym llm_engine = "string \<Rightarrow> pyfloat \<Rightarrow> py_error + string"

type_synonym json_decoder = "string \<Rightarrow> py_error + pydict"

subsection \<open>Parsing the response\<close>

text \<open>
  \<^verbatim>\<open>re.search(r'\{[^{}]*\}', response, re.DOTALL)\<close>: the leftmost opening brace
  whose next brace is a closing one, with the text between them. \<open>brace_body\<close> reads
  on from behind an opening brace.
\<close>

fun brace_body :: "string \<Rightarrow> string option" where
  "brace_body [] = None"
| "brace_body (c # cs) =
     (if c = CHR ''}'' then Some []
      else if c = CHR ''{'' then None
      else map_option ((#) c) (brace_body cs))"

fun search_json :: "string \<Rightarrow> string option" where
  "search_json [] = None"
| "search_json (c # cs) =
     (if c = CHR ''{''
      then (case brace_body cs of
              Some body \<Rightarrow> Some (CHR ''{'' # body @ ''}'')
            | None \<Rightarrow> search_json cs)
      else search_json cs)"

definition fallback_parse :: "string \<Rightarrow> pydict" where
  "fallback_parse response =
     (let severity =
            (if str_contains ''critical'' (py_lower response) then severity_value CRITICAL
             else if str_contains ''high'' (py_lower response) then severity_value HIGH
             else if str_contains ''low'' (py_lower response) then severity_value LOW
             else severity_value MEDIUM)
      in [(''severity'', PStr severity),
          (''impact_score'', PInt 5),
          (''frequency_score'', PInt 5),
          (''recovery_score'', PInt 5),
          (''weighted_score'', PFloat (Fin 5)),
          (''reasoning'', PStr ''Parsed from unstructured response'')])"

definition default_classification :: pydict where
  "default_classification =
     [(''severity'', PStr (severity_value MEDIUM)),
      (''impact_score'', PInt 5),
      (''frequency_score'', PInt 5),
      (''recovery_score'', PInt 5),
      (''weighted_score'', PFloat (Fin 5)),
      (''reasoning'', PStr ''Default classification due to parsing error'')]"

text \<open>
  The expression both \<^verbatim>\<open>_parse_classification\<close> and
  \<^verbatim>\<open>_validate_classification\<close> compute:
  \<^verbatim>\<open>0.5 * c.get('impact_score', 5) + 0.3 * c.get('frequency_score', 5) + 0.2 * c.get('recovery_score', 5)\<close>.
  The literals \<^verbatim>\<open>0.3\<close> and \<^verbatim>\<open>0.2\<close> are the binary64 numbers nearest to 3/10 and
  2/10. The three products are taken from left to right, so the first operand that is
  not a number decides the exception.
\<close>

definition weighted_sum :: "pyval \<Rightarrow> pyval \<Rightarrow> pyval \<Rightarrow> py_error + pyfloat" where
  "weighted_sum impact frequency recovery =
     (case float_times (Fin (1 / 2)) impact of
        Inl e \<Rightarrow> Inl e
      | Inr a \<Rightarrow>
     (case float_times (round_double (3 / 10)) frequency of
        Inl e \<Rightarrow> Inl e
      | Inr b \<Rightarrow>
     (case float_times (round_double (2 / 10)) recovery of
        Inl e \<Rightarrow> Inl e
      | Inr d \<Rightarrow> Inr (fadd (fadd a b) d))))"

definition weighted_formula :: "pydict \<Rightarrow> py_error + pyfloat" where
  "weighted_formula c =
     weighted_sum (dict_get c ''impact_score'' (PInt 5))
       (dict_get c ''frequency_score'' (PInt 5))
       (dict_get c ''recovery_score'' (PInt 5))"

definition add_weighted_score :: "pydict \<Rightarrow> py_error + pydict" where
  "add_weighted_score c =
     (if map_of c ''weighted_score'' = None
      then (case weighted_formula c of
              Inl e \<Rightarrow> Inl e
            | Inr w \<Rightarrow> Inr (dict_set ''weighted_score'' (PFloat w) c))
      else Inr c)"

text \<open>
  \<^verbatim>\<open>_parse_classification\<close>: \<open>parse_body\<close> is the body of the \<^verbatim>\<open>try\<close>, and the
  \<^verbatim>\<open>except json.JSONDecodeError\<close> clause turns that one exception into the default
  classification; any other exception leaves the function.
\<close>

definition parse_body :: "json_decoder \<Rightarrow> string \<Rightarrow> py_error + pydict" where
  "parse_body loads response =
     (case search_json response of
        Some json_str \<Rightarrow>
          (case loads json_str of Inl e \<Rightarrow> Inl e | Inr c \<Rightarrow> add_weighted_score c)
      | None \<Rightarrow> add_weighted_score (fallback_parse response))"

definition parse_classification :: "json_decoder \<Rightarrow> string \<Rightarrow> py_error + pydict" where
  "parse_classification loads response =
     (case parse_body loads response of
        Inl e \<Rightarrow> (if e = JSONDecodeError then Inr default_classification else Inl e)
      | Inr c \<Rightarrow> Inr c)"

subsection \<open>Validation\<close>

definition valid_severities :: "string list" where
  "valid_severities = map severity_value [CRITICAL, HIGH, MEDIUM, LOW]"

definition clamp_score :: "pyval \<Rightarrow> py_error + pyval" where
  "clamp_score v = (case py_min 10 v of Inl e \<Rightarrow> Inl e | Inr m \<Rightarrow> py_max 0 m)"

text \<open>The loop over the three score keys; a key that is absent is skipped.\<close>

fun clamp_scores :: "string list \<Rightarrow> pydict \<Rightarrow> py_error + pydict" where
  "clamp_scores [] c = Inr c"
| "clamp_scores (score_key # keys) c =
     (case map_of c score_key of
        None \<Rightarrow> clamp_scores keys c
      | Some v \<Rightarrow>
          (case clamp_score v of
             Inl e \<Rightarrow> Inl e
           | Inr x \<Rightarrow> clamp_scores keys (dict_set score_key x c)))"

definition score_keys :: "string list" where
  "score_keys = [''impact_score'', ''frequency_score'', ''recovery_score'']"

definition coerce_severity :: "pydict \<Rightarrow> pydict" where
  "coerce_severity c =
     (if dict_get c ''severity'' PNone \<notin> set (map PStr valid_severities)
      then dict_set ''severity'' (PStr (severity_value MEDIUM)) c
      else c)"

definition validate_classification :: "pydict \<Rightarrow> py_error + pydict" where
  "validate_classification c =
     (case clamp_scores score_keys (coerce_severity c) of
        Inl e \<Rightarrow> Inl e
      | Inr c' \<Rightarrow>
          (case weighted_formula c' of
             Inl e \<Rightarrow> Inl e
           | Inr w \<Rightarrow> Inr (dict_set ''weighted_score'' (PFloat w) c')))"

subsection \<open>Classification and its history\<close>

text \<open>
  \<^verbatim>\<open>classification_history\<close> is the state of a classifier: \<^verbatim>\<open>classify\<close> takes it
  and returns it with one entry appended, next to the classification.
\<close>

record history_item =
  item_endpoint :: string
  item_classification :: pydict

definition classify ::
  "json_decoder \<Rightarrow> llm_engine \<Rightarrow> history_item list \<Rightarrow> string \<Rightarrow> string \<Rightarrow> string
     \<Rightarrow> py_error + (pydict \<times> history_item list)" where
  "classify loads generate classification_history error_message test_context endpoint =
     (case generate (bug_classification_prompt error_message test_context endpoint)
             (round_double (2 / 10)) of
        Inl e \<Rightarrow> Inl e
      | Inr response \<Rightarrow>
     (case parse_classification loads response of
        Inl e \<Rightarrow> Inl e
      | Inr parsed \<Rightarrow>
     (case validate_classification parsed of
        Inl e \<Rightarrow> Inl e
      | Inr c \<Rightarrow>
          Inr (c, classification_history
                    @ [\<lparr>item_endpoint = endpoint, item_classification = c\<rparr>]))))"

subsection \<open>Statistics\<close>

text \<open>
  \<^verbatim>\<open>total_score += w\<close>: two \<^verbatim>\<open>int\<close>s (or \<^verbatim>\<open>bool\<close>s) add to an \<^verbatim>\<open>int\<close>, a float
  with a number adds as floats, and anything else raises \<^verbatim>\<open>TypeError\<close>.
\<close>

fun int_value :: "pyval \<Rightarrow> int option" where
  "int_value (PBool b) = Some (if b then 1 else 0)"
| "int_value (PInt n) = Some n"
| "int_value _ = None"

fun is_number :: "pyval \<Rightarrow> bool" where
  "is_number (PBool b) = True"
| "is_number (PInt n) = True"
| "is_number (PFloat f) = True"
| "is_number _ = False"

definition py_add :: "pyval \<Rightarrow> pyval \<Rightarrow> py_error + pyval" where
  "py_add a b =
     (case (int_value a, int_value b) of
        (Some m, Some n) \<Rightarrow> Inr (PInt (m + n))
      | _ \<Rightarrow>
          if \<not> is_number a \<or> \<not> is_number b then Inl TypeError
          else (case as_float a of
                  Inl e \<Rightarrow> Inl e
                | Inr x \<Rightarrow>
                    (case as_float b of Inl e \<Rightarrow> Inl e | Inr y \<Rightarrow> Inr (PFloat (fadd x y)))))"

text \<open>
  \<^verbatim>\<open>total_score / len(history)\<close>, true division by an \<^verbatim>\<open>int\<close>: the quotient of two
  \<^verbatim>\<open>int\<close>s is rounded once, a float is divided by the converted length.
\<close>

definition py_truediv :: "pyval \<Rightarrow> int \<Rightarrow> py_error + pyfloat" where
  "py_truediv a n =
     (case int_value a of
        Some m \<Rightarrow>
          (if n = 0 then Inl ZeroDivisionError
           else (case round_double (of_int m / of_int n) of
                   Fin r \<Rightarrow> Inr (Fin r)
                 | _ \<Rightarrow> Inl OverflowError))
      | None \<Rightarrow>
          (case a of
             PFloat f \<Rightarrow>
               (case float_of_int n of Inl e \<Rightarrow> Inl e | Inr y \<Rightarrow> fdiv f y)
           | _ \<Rightarrow> Inl TypeError))"

text \<open>
  A list or a dict cannot be a dictionary key. A dictionary finds the key that is equal
  (\<^verbatim>\<open>==\<close>) to the one looked up: two numbers are equal when their values are, so
  that \<^verbatim>\<open>1\<close>, \<^verbatim>\<open>1.0\<close> and \<^verbatim>\<open>True\<close> are one key, and a string or \<^verbatim>\<open>None\<close> is
  equal to itself only. A NaN differs from every number and is found by identity; NaN
  keys are taken to be one object, as those \<^verbatim>\<open>json.loads\<close> returns are. Assigning to
  a key that is found replaces the value and keeps the key the dictionary holds;
  assigning to a new key appends it.
\<close>

fun hashable :: "pyval \<Rightarrow> bool" where
  "hashable (PList xs) = False"
| "hashable (PDict d) = False"
| "hashable _ = True"

fun key_number :: "pyval \<Rightarrow> pyfloat option" where
  "key_number (PBool b) = Some (Fin (if b then 1 else 0))"
| "key_number (PInt n) = Some (Fin (of_int n))"
| "key_number (PFloat f) = Some f"
| "key_number _ = None"

definition py_key_eq :: "pyval \<Rightarrow> pyval \<Rightarrow> bool" where
  "py_key_eq a b =
     (case key_number a of Some x \<Rightarrow> key_number b = Some x | None \<Rightarrow> a = b)"

fun counts_get :: "(pyval \<times> int) list \<Rightarrow> pyval \<Rightarrow> int \<Rightarrow> int" where
  "counts_get [] k dflt = dflt"
| "counts_get ((k', n) # ps) k dflt = (if py_key_eq k' k then n else counts_get ps k dflt)"

fun counts_set :: "pyval \<Rightarrow> int \<Rightarrow> (pyval \<times> int) list \<Rightarrow> (pyval \<times> int) list" where
  "counts_set k n [] = [(k, n)]"
| "counts_set k n ((k', n') # ps) =
     (if py_key_eq k' k then (k', n) # ps else (k', n') # counts_set k n ps)"

fun stats_loop ::
  "history_item list \<Rightarrow> (pyval \<times> int) list \<Rightarrow> pyval
     \<Rightarrow> py_error + ((pyval \<times> int) list \<times> pyval)" where
  "stats_loop [] severity_counts total_score = Inr (severity_counts, total_score)"
| "stats_loop (item # items) severity_counts total_score =
     (case map_of (item_classification item) ''severity'' of
        None \<Rightarrow> Inl KeyError
      | Some severity \<Rightarrow>
          if \<not> hashable severity then Inl TypeError
          else
     (case map_of (item_classification item) ''weighted_score'' of
        None \<Rightarrow> Inl KeyError
      | Some w \<Rightarrow>
     (case py_add total_score w of
        Inl e \<Rightarrow> Inl e
      | Inr total' \<Rightarrow>
          stats_loop items
            (counts_set severity (counts_get severity_counts severity 0 + 1) severity_counts)
            total')))"

record statistics =
  total_classifications :: int
  severity_distribution :: "(pyval \<times> int) list"
  average_weighted_score :: pyfloat

definition get_statistics :: "history_item list \<Rightarrow> py_error + statistics" where
  "get_statistics classification_history =
     (if classification_history = []
      then Inr \<lparr>total_classifications = 0, severity_distribution = [],
                average_weighted_score = Fin 0\<rparr>
      else
     (case stats_loop classification_history [] (PInt 0) of
        Inl e \<Rightarrow> Inl e
      | Inr (severity_counts, total_score) \<Rightarrow>
     (case py_truediv total_score (int (length classification_history)) of
        Inl e \<Rightarrow> Inl e
      | Inr average \<Rightarrow>
          Inr \<lparr>total_classifications = int (length classification_history),
               severity_distribution = severity_counts,
               average_weighted_score = average\<rparr>)))"

section \<open>The log interpreter\<close>

subsection \<open>Collaborators\<close>

text \<open>\<^verbatim>\<open>PromptTemplates.log_interpretation_prompt\<close>, an f-string.\<close>

definition log_interpretation_prompt :: "string \<Rightarrow> string \<Rightarrow> string" where
  "log_interpretation_prompt error_log service_name =
     concat
      [''You are a debugging expert analyzing a system failure. Provide a clear, human-readable explanation of what went wrong and how to fix it.\<newline>'',
       ''\<newline>'',
       ''**Service:** '',
       service_name,
       ''\<newline>'',
       ''\<newline>'',
       ''**Error Log:**\<newline>'',
       error_log,
       ''\<newline>'',
       ''\<newline>'',
       ''**Your Task:**\<newline>'',
       ''1. Identify the root cause of the failure\<newline>'',
       ''2. Explain what components are affected\<newline>'',
       ''3. Provide actionable remediation steps\<newline>'',
       ''4. Suggest preventive measures\<newline>'',
       ''\<newline>'',
       ''**Output Format:**\<newline>'',
       ''Provide your analysis in this structure:\<newline>'',
       ''\<newline>'',
       ''**Root Cause:**\<newline>'',
       ''<One clear sentence explaining what caused the failure>\<newline>'',
       ''\<newline>'',
       ''**Affected Components:**\<newline>'',
       ''<List the impacted services, endpoints, or data>\<newline>'',
       ''\<newline>'',
       ''**Recommended Fix:**\<newline>'',
       ''<Step-by-step remediation instructions>\<newline>'',
       ''\<newline>'',
       ''**Prevention:**\<newline>'',
       ''<Suggestions to prevent similar issues>\<newline>'',
       ''\<newline>'',
       ''Analyze this error now:'']"

text \<open>
  The white space of \<^verbatim>\<open>str.strip()\<close> and of the regular expression class
  \<^verbatim>\<open>\s\<close> on a \<^verbatim>\<open>str\<close>: among the code points below 256 these are U+0009 to
  U+000D, U+001C to U+0020, U+0085 and U+00A0.
\<close>

definition isspace :: "char \<Rightarrow> bool" where
  "isspace c =
     (let n = (of_char c :: nat)
      in (9 \<le> n \<and> n \<le> 13) \<or> (28 \<le> n \<and> n \<le> 32) \<or> n = 133 \<or> n = 160)"

definition strip :: "string \<Rightarrow> string" where
  "strip s = rev (dropWhile isspace (rev (dropWhile isspace s)))"

text \<open>
  \<^verbatim>\<open>response.split('\n\n')\<close>: the pieces between the occurrences of two line feeds
  in a row, found from left to right; \<open>piece\<close> collects the piece being read.
\<close>

fun split_blank_lines :: "string \<Rightarrow> string \<Rightarrow> string list" where
  "split_blank_lines piece [] = [piece]"
| "split_blank_lines piece [c] = [piece @ [c]]"
| "split_blank_lines piece (c # d # cs) =
     (if c = CHR 0x0A \<and> d = CHR 0x0A
      then piece # split_blank_lines [] cs
      else split_blank_lines (piece @ [c]) (d # cs))"

subsection \<open>The section patterns\<close>

text \<open>
  Each of the four regular expressions has the shape
  \<^verbatim>\<open>\*\*Root Cause:\*\*\s*(.*?)(?=\*\*|$)\<close>: a literal label, white space, a lazy
  group, and a lookahead for a literal or the end of the text. A pattern is kept as its
  label and the literal of its lookahead. \<^verbatim>\<open>re.search\<close> runs with
  \<^verbatim>\<open>re.DOTALL | re.IGNORECASE\<close>.
\<close>

record section_pattern =
  pat_label :: string
  pat_stop :: string

definition section_regex :: "string \<Rightarrow> section_pattern" where
  "section_regex title = \<lparr>pat_label = ''**'' @ title @ '':**'', pat_stop = ''**''\<rparr>"

definition sections :: "(string \<times> section_pattern) list" where
  "sections =
     [(''root_cause'', section_regex ''Root Cause''),
      (''affected_components'', section_regex ''Affected Components''),
      (''recommended_fix'', section_regex ''Recommended Fix''),
      (''prevention'', section_regex ''Prevention'')]"

text \<open>
  \<^verbatim>\<open>pattern.replace(r"\*\*", "").replace(r"\*", "")\<close> deletes every escaped asterisk
  of the pattern text, those of the lookahead included: the simple pattern of
  \<^verbatim>\<open>root_cause\<close> is \<^verbatim>\<open>Root Cause:\s*(.*?)(?=|$)\<close>.
\<close>

definition pattern_simple :: "section_pattern \<Rightarrow> section_pattern" where
  "pattern_simple pattern =
     \<lparr>pat_label = filter (\<lambda>c. c \<noteq> CHR ''*'') (pat_label pattern),
      pat_stop = filter (\<lambda>c. c \<noteq> CHR ''*'') (pat_stop pattern)\<rparr>"

text \<open>
  Matching a literal without regard to case: a character of the text matches one of the
  literal when their lower cases agree. \<open>ci_starts_with\<close> returns the text behind the
  literal, \<open>ci_find\<close> the text behind its leftmost occurrence.
\<close>

fun ci_starts_with :: "string \<Rightarrow> string \<Rightarrow> string option" where
  "ci_starts_with s [] = Some s"
| "ci_starts_with [] (p # ps) = None"
| "ci_starts_with (c # cs) (p # ps) =
     (if lower_char c = lower_char p then ci_starts_with cs ps else None)"

fun ci_find :: "string \<Rightarrow> string \<Rightarrow> string option" where
  "ci_find literal [] = ci_starts_with [] literal"
| "ci_find literal (c # cs) =
     (case ci_starts_with (c # cs) literal of
        Some rest \<Rightarrow> Some rest
      | None \<Rightarrow> ci_find literal cs)"

text \<open>
  The lazy group \<^verbatim>\<open>(.*?)\<close> before the lookahead: the shortest text after which the
  lookahead's literal follows, or the text ends, or only its final line feed is left
  (where \<^verbatim>\<open>$\<close> matches as well). An empty literal follows everywhere.
\<close>

fun lazy_group :: "string \<Rightarrow> string \<Rightarrow> string" where
  "lazy_group stop [] = []"
| "lazy_group stop (c # cs) =
     (if starts_with (c # cs) stop \<or> (c # cs) = [CHR 0x0A] then []
      else c # lazy_group stop cs)"

text \<open>
  \<^verbatim>\<open>re.search(pattern, response, ...)\<close> and \<^verbatim>\<open>match.group(1)\<close>. The search
  succeeds at the leftmost occurrence of the label: there \<^verbatim>\<open>\s*\<close> takes all the
  white space that follows and the lazy group always finds an end.
\<close>

definition re_search :: "section_pattern \<Rightarrow> string \<Rightarrow> string option" where
  "re_search pattern response =
     (case ci_find (pat_label pattern) response of
        None \<Rightarrow> None
      | Some rest \<Rightarrow> Some (lazy_group (pat_stop pattern) (dropWhile isspace rest)))"

subsection \<open>Parsing the response\<close>

type_synonym interp_dict = "(string \<times> string) list"

definition interp_fallback_parse :: "string \<Rightarrow> interp_dict" where
  "interp_fallback_parse response =
     (let paragraphs = filter (\<lambda>p. p \<noteq> []) (map strip (split_blank_lines [] response))
      in [(''root_cause'',
             if 0 < length paragraphs then paragraphs ! 0
             else ''Unable to determine root cause''),
          (''affected_components'',
             if 1 < length paragraphs then paragraphs ! 1 else ''Unknown''),
          (''recommended_fix'',
             if 2 < length paragraphs then paragraphs ! 2
             else ''Manual investigation required''),
          (''prevention'',
             if 3 < length paragraphs then paragraphs ! 3 else ''N/A''),
          (''raw_response'', response)])"

text \<open>
  The body of the loop over \<^verbatim>\<open>sections.items()\<close>: the text to store under the key,
  if either pattern matches.
\<close>

definition extract_section :: "section_pattern \<Rightarrow> string \<Rightarrow> string option" where
  "extract_section pattern response =
     (case re_search pattern response of
        Some group1 \<Rightarrow> Some (strip group1)
      | None \<Rightarrow>
          (case re_search (pattern_simple pattern) response of
             Some group1 \<Rightarrow> Some (strip group1)
           | None \<Rightarrow> None))"

fun extract_sections ::
  "(string \<times> section_pattern) list \<Rightarrow> string \<Rightarrow> interp_dict \<Rightarrow> interp_dict" where
  "extract_sections [] response interpretation = interpretation"
| "extract_sections ((key, pattern) # rest) response interpretation =
     (case extract_section pattern response of
        Some text \<Rightarrow> extract_sections rest response (dict_set key text interpretation)
      | None \<Rightarrow> extract_sections rest response interpretation)"

definition primary_parse :: "string \<Rightarrow> interp_dict" where
  "primary_parse response =
     extract_sections sections response
       [(''root_cause'', []),
        (''affected_components'', []),
        (''recommended_fix'', []),
        (''prevention'', []),
        (''raw_response'', response)]"

definition parse_interpretation :: "string \<Rightarrow> interp_dict" where
  "parse_interpretation response =
     (let interpretation = primary_parse response
      in if dict_get interpretation ''root_cause'' [] = []
         then interp_fallback_parse response
         else interpretation)"

subsection \<open>Interpretation and its history\<close>

text \<open>
  \<^verbatim>\<open>LogInterpreter.interpret\<close>, named \<open>interpret_log\<close> here. The history is
  passed in and returned as for the classifier.
\<close>

record interpretation_item =
  item_service :: string
  item_interpretation :: interp_dict

definition interpret_log ::
  "llm_engine \<Rightarrow> interpretation_item list \<Rightarrow> string \<Rightarrow> string
     \<Rightarrow> py_error + (interp_dict \<times> interpretation_item list)" where
  "interpret_log generate interpretation_history error_log service_name =
     (case generate (log_interpretation_prompt error_log service_name)
             (round_double (3 / 10)) of
        Inl e \<Rightarrow> Inl e
      | Inr response \<Rightarrow>
          (let interpretation =
                 dict_set ''original_log'' (take 500 error_log)
                   (dict_set ''service_name'' service_name (parse_interpretation response))
           in Inr (interpretation,
                   interpretation_history
                     @ [\<lparr>item_service = service_name,
                         item_interpretation = interpretation\<rparr>])))"

section \<open>Notions the properties are stated with\<close>

text \<open>
  The number a \<^verbatim>\<open>bool\<close>, an \<^verbatim>\<open>int\<close> or a finite float stands for, and the
  scores that lie between 0 and 10.
\<close>

fun py_num :: "pyval \<Rightarrow> real option" where
  "py_num (PBool b) = Some (if b then 1 else 0)"
| "py_num (PInt n) = Some (of_int n)"
| "py_num (PFloat (Fin r)) = Some r"
| "py_num _ = None"

definition score_in_range :: "pyval \<Rightarrow> bool" where
  "score_in_range v = (case py_num v of Some r \<Rightarrow> 0 \<le> r \<and> r \<le> 10 | None \<Rightarrow> False)"

text \<open>
  A classification whose \<^verbatim>\<open>weighted_score\<close> is the value of the weighted formula on
  its own sub-scores.
\<close>

definition weighted_score_recomputed :: "pydict \<Rightarrow> bool" where
  "weighted_score_recomputed c =
     (case weighted_formula c of
        Inl e \<Rightarrow> False
      | Inr w \<Rightarrow> map_of c ''weighted_score'' = Some (PFloat w))"

text \<open>
  A keyword occurs in a text without regard to case when some stretch of the text has
  the keyword's lower case. A text holds a brace-delimited object when a closing brace
  follows an opening one with no brace between them.
\<close>

definition occurs_ignoring_case :: "string \<Rightarrow> string \<Rightarrow> bool" where
  "occurs_ignoring_case keyword s =
     (\<exists>before mid after. s = before @ mid @ after \<and> py_lower mid = py_lower keyword)"

definition has_brace_object :: "string \<Rightarrow> bool" where
  "has_brace_object s =
     (\<exists>before body after.
        s = before @ ''{'' @ body @ ''}'' @ after
        \<and> CHR ''{'' \<notin> set body \<and> CHR ''}'' \<notin> set body)"

text \<open>
  The severities and the weighted scores a history holds, the number of its entries
  under one severity, and the float sum the statistics loop forms, from the left and
  from the \<^verbatim>\<open>int\<close> 0.
\<close>

definition count_severity :: "pyval \<Rightarrow> history_item list \<Rightarrow> nat" where
  "count_severity v h =
     length (filter (\<lambda>item. map_of (item_classification item) ''severity'' = Some v) h)"

definition weighted_scores :: "history_item list \<Rightarrow> pyfloat list" where
  "weighted_scores h =
     map (\<lambda>item. case map_of (item_classification item) ''weighted_score'' of
                   Some (PFloat w) \<Rightarrow> w
                 | _ \<Rightarrow> NaN) h"

definition float_sum :: "pyfloat list \<Rightarrow> pyfloat" where
  "float_sum ws = foldl fadd (Fin 0) ws"

text \<open>
  A section of a response is parseable when the loop over the section patterns stores a
  text for it that is not empty; \<^verbatim>\<open>_parse_interpretation\<close> itself takes an empty
  \<^verbatim>\<open>root_cause\<close> for a failed parse. \<open>join_blank_lines\<close> puts two line feeds
  between the pieces of a list, as \<^verbatim>\<open>'\n\n'.join\<close> does.
\<close>

definition parseable_section :: "string \<Rightarrow> string \<Rightarrow> string \<Rightarrow> bool" where
  "parseable_section title response section_text =
     (extract_section (section_regex title) response = Some section_text
      \<and> section_text \<noteq> [])"

fun join_blank_lines :: "string list \<Rightarrow> string" where
  "join_blank_lines [] = []"
| "join_blank_lines [p] = p"
| "join_blank_lines (p # q # ps) = p @ [CHR 0x0A, CHR 0x0A] @ join_blank_lines (q # ps)"

text \<open>
  What \<^verbatim>\<open>json.loads\<close> returns on the texts of the examples; the table stands for the
  decoder on these texts only.
\<close>

definition example_loads :: json_decoder where
  "example_loads text =
     (case map_of
        [(''{\"severity\": \"High\", \"impact_score\": 9, \"frequency_score\": 20, \"recovery_score\": -3}'',
          [(''severity'', PStr ''High''), (''impact_score'', PInt 9),
           (''frequency_score'', PInt 20), (''recovery_score'', PInt (- 3))]),
         (''{\"severity\": \"Urgent\", \"impact_score\": 12.5, \"weighted_score\": 1.0}'',
          [(''severity'', PStr ''Urgent''), (''impact_score'', PFloat (Fin (25 / 2))),
           (''weighted_score'', PFloat (Fin 1))]),
         (''{\"severity\": \"High\"}'',
          [(''severity'', PStr ''High'')]),
         (''{\"severity\": \"High\", \"impact_score\": \"9\"}'',
          [(''severity'', PStr ''High''), (''impact_score'', PStr ''9'')])]
        text of
        Some d \<Rightarrow> Inr d
      | None \<Rightarrow> Inl JSONDecodeError)"

section \<open>Evaluation rules\<close>

lemma bit_length_0 [simp]: "bit_length 0 = 0"
  by (simp add: bit_length.simps)

lemma bit_length_Suc_0 [simp]: "bit_length (Suc 0) = Suc 0"
  by (simp add: bit_length.simps)

lemma bit_length_numeral [simp]:
  "bit_length (numeral k) = Suc (bit_length (numeral k div 2))"
  by (subst bit_length.simps) simp

lemmas round_double_eval =
  round_double_def ilog2_def round_half_even_def pow2_def Let_def

lemma lower_char_Char:
  "lower_char (Char b0 b1 b2 b3 b4 b5 b6 b7) =
     (let n = (of_char (Char b0 b1 b2 b3 b4 b5 b6 b7) :: nat)
      in if (65 \<le> n \<and> n \<le> 90) \<or> (192 \<le> n \<and> n \<le> 222 \<and> n \<noteq> 215)
         then Char b0 b1 b2 b3 b4 True b6 b7 else Char b0 b1 b2 b3 b4 b5 b6 b7)"
  by (cases b0; cases b1; cases b2; cases b3; cases b4; cases b5; cases b6; cases b7;
      simp add: lower_char_def char_of_def bit_Suc_0_iff)

section \<open>Dictionaries\<close>

lemma map_of_dict_set: "map_of (dict_set k v d) = (map_of d)(k \<mapsto> v)"
  by (induction d) auto

lemma dict_get_dict_set:
  "dict_get (dict_set k v d) k' dflt = (if k' = k then v else dict_get d k' dflt)"
  by (simp add: dict_get_def map_of_dict_set)

section \<open>The weighted formula\<close>

lemma weighted_formula_cong:
  assumes "\<And>k. k \<in> set score_keys \<Longrightarrow> map_of c k = map_of c' k"
  shows "weighted_formula c = weighted_formula c'"
  using assms by (simp add: weighted_formula_def dict_get_def score_keys_def)

lemma weighted_formula_dict_set:
  "k \<notin> set score_keys \<Longrightarrow> weighted_formula (dict_set k v c) = weighted_formula c"
  by (rule weighted_formula_cong) (auto simp: map_of_dict_set)

lemma weighted_formula_fives:
  assumes "dict_get c ''impact_score'' (PInt 5) = PInt 5"
    and "dict_get c ''frequency_score'' (PInt 5) = PInt 5"
    and "dict_get c ''recovery_score'' (PInt 5) = PInt 5"
  shows "weighted_formula c = Inr (Fin 5)"
  using assms
  by (simp add: weighted_formula_def weighted_sum_def float_times_def float_of_int_def
      round_double_eval)

lemma float_times_error:
  "float_times f v = Inl e \<Longrightarrow> e = TypeError \<or> e = OverflowError"
  by (cases v)
     (auto simp: float_times_def float_of_int_def split: sum.splits pyfloat.splits)

lemma weighted_sum_error:
  "weighted_sum i f r = Inl e \<Longrightarrow> e = TypeError \<or> e = OverflowError"
  by (auto simp: weighted_sum_def split: sum.splits dest: float_times_error)

section \<open>Validation\<close>

lemma validate_recomputed:
  assumes "validate_classification c = Inr c'"
  shows "weighted_score_recomputed c'"
proof -
  from assms obtain c2 w where
    c2: "clamp_scores score_keys (coerce_severity c) = Inr c2"
    and w: "weighted_formula c2 = Inr w"
    and c': "c' = dict_set ''weighted_score'' (PFloat w) c2"
    by (auto simp: validate_classification_def split: sum.splits)
  have "weighted_formula c' = Inr w"
    unfolding c' using w by (simp add: weighted_formula_dict_set score_keys_def)
  moreover have "map_of c' ''weighted_score'' = Some (PFloat w)"
    unfolding c' by (simp add: map_of_dict_set)
  ultimately show ?thesis
    by (simp add: weighted_score_recomputed_def)
qed

lemma classify_result:
  assumes "classify loads generate h em tc ep = Inr (c, h')"
  shows "\<exists>response parsed.
           generate (bug_classification_prompt em tc ep) (round_double (2 / 10)) = Inr response
           \<and> parse_classification loads response = Inr parsed
           \<and> validate_classification parsed = Inr c
           \<and> h' = h @ [\<lparr>item_endpoint = ep, item_classification = c\<rparr>]"
  using assms by (auto simp: classify_def split: sum.splits)

lemma clamp_score_number: "is_number v \<Longrightarrow> \<exists>x. clamp_score v = Inr x"
  by (cases "(v, 0::int)" rule: py_lt.cases) (auto simp: clamp_score_def py_min_def py_max_def)

lemma clamp_score_not_number: "\<not> is_number v \<Longrightarrow> clamp_score v = Inl TypeError"
  by (cases v) (auto simp: clamp_score_def py_min_def)

lemma clamp_score_in_range: "clamp_score v = Inr x \<Longrightarrow> score_in_range x"
  by (cases "(v, 0::int)" rule: py_lt.cases)
     (auto simp: clamp_score_def py_min_def py_max_def score_in_range_def split: if_splits)

lemma clamp_score_value:
  assumes "clamp_score v = Inr x" and "py_num v = Some r"
  shows "(r \<le> 0 \<longrightarrow> x = PInt 0) \<and> (10 \<le> r \<longrightarrow> x = PInt 10) \<and> (0 < r \<and> r < 10 \<longrightarrow> x = v)"
  using assms
  by (cases "(v, 0::int)" rule: py_lt.cases)
     (auto simp: clamp_score_def py_min_def py_max_def split: if_splits)

lemma clamp_score_infinite:
  "clamp_score (PFloat PosInf) = Inr (PInt 10)"
  "clamp_score (PFloat NegInf) = Inr (PInt 0)"
  "clamp_score (PFloat NaN) = Inr (PInt 10)"
  by (simp_all add: clamp_score_def py_min_def py_max_def)

lemma score_in_range_number: "score_in_range x \<Longrightarrow> is_number x"
  by (cases "(x, 0::int)" rule: py_lt.cases) (auto simp: score_in_range_def)

lemma clamp_scores_other:
  "clamp_scores keys c = Inr c' \<Longrightarrow> k \<notin> set keys \<Longrightarrow> map_of c' k = map_of c k"
  by (induction keys arbitrary: c) (auto simp: map_of_dict_set split: option.splits sum.splits)

lemma clamp_scores_absent:
  "clamp_scores keys c = Inr c' \<Longrightarrow> map_of c k = None \<Longrightarrow> map_of c' k = None"
proof (induction keys arbitrary: c)
  case Nil
  then show ?case by simp
next
  case (Cons key keys)
  show ?case
  proof (cases "map_of c key")
    case None
    with Cons show ?thesis by simp
  next
    case (Some u)
    with Cons.prems obtain x where
      rest: "clamp_scores keys (dict_set key x c) = Inr c'"
      by (auto split: sum.splits)
    from Some Cons.prems(2) have "key \<noteq> k" by auto
    with Cons.prems(2) have "map_of (dict_set key x c) k = None"
      by (simp add: map_of_dict_set)
    with rest show ?thesis by (rule Cons.IH)
  qed
qed

lemma clamp_scores_key:
  assumes "clamp_scores keys c = Inr c'" and "distinct keys" and "k \<in> set keys"
    and "map_of c k = Some v"
  shows "\<exists>x. clamp_score v = Inr x \<and> map_of c' k = Some x"
  using assms
proof (induction keys arbitrary: c)
  case Nil
  then show ?case by simp
next
  case (Cons key keys)
  show ?case
  proof (cases "key = k")
    case True
    with Cons.prems obtain x where x: "clamp_score v = Inr x"
      and rest: "clamp_scores keys (dict_set k x c) = Inr c'"
      by (auto split: sum.splits)
    from Cons.prems True have "k \<notin> set keys" by simp
    with rest have "map_of c' k = map_of (dict_set k x c) k"
      by (rule clamp_scores_other)
    with x show ?thesis by (simp add: map_of_dict_set)
  next
    case False
    with Cons.prems have k: "k \<in> set keys" and d: "distinct keys" by auto
    show ?thesis
    proof (cases "map_of c key")
      case None
      with Cons.prems have "clamp_scores keys c = Inr c'" by simp
      from Cons.IH [OF this d k Cons.prems(4)] show ?thesis .
    next
      case (Some u)
      with Cons.prems obtain y where
        rest: "clamp_scores keys (dict_set key y c) = Inr c'"
        by (auto split: sum.splits)
      from False Cons.prems(4) have "map_of (dict_set key y c) k = Some v"
        by (simp add: map_of_dict_set)
      from Cons.IH [OF rest d k this] show ?thesis .
    qed
  qed
qed

lemma clamp_scores_returns:
  assumes "\<And>k v. k \<in> set keys \<Longrightarrow> map_of c k = Some v \<Longrightarrow> is_number v"
  shows "\<exists>c'. clamp_scores keys c = Inr c'"
  using assms
proof (induction keys arbitrary: c)
  case Nil
  then show ?case by simp
next
  case (Cons key keys)
  show ?case
  proof (cases "map_of c key")
    case None
    have "\<exists>c'. clamp_scores keys c = Inr c'"
      by (rule Cons.IH) (use Cons.prems in auto)
    with None show ?thesis by simp
  next
    case (Some u)
    with Cons.prems have "is_number u" by auto
    then obtain x where x: "clamp_score u = Inr x"
      using clamp_score_number by blast
    then have nx: "is_number x"
      by (simp add: clamp_score_in_range score_in_range_number)
    have "\<exists>c'. clamp_scores keys (dict_set key x c) = Inr c'"
    proof (rule Cons.IH)
      fix k v
      assume "k \<in> set keys" and "map_of (dict_set key x c) k = Some v"
      with nx Cons.prems show "is_number v"
        by (auto simp: map_of_dict_set split: if_splits)
    qed
    with Some x show ?thesis by simp
  qed
qed

lemma clamp_scores_raises:
  assumes "k \<in> set keys" and "map_of c k = Some v" and "\<not> is_number v"
  shows "clamp_scores keys c = Inl TypeError"
  using assms
proof (induction keys arbitrary: c)
  case Nil
  then show ?case by simp
next
  case (Cons key keys)
  show ?case
  proof (cases "map_of c key")
    case None
    with Cons.prems have "k \<in> set keys" by auto
    with Cons None show ?thesis by simp
  next
    case (Some u)
    show ?thesis
    proof (cases "is_number u")
      case False
      with Some show ?thesis by (simp add: clamp_score_not_number)
    next
      case True
      then obtain x where x: "clamp_score u = Inr x"
        using clamp_score_number by blast
      then have nx: "is_number x"
        by (simp add: clamp_score_in_range score_in_range_number)
      from True Some Cons.prems have "key \<noteq> k" by auto
      with Cons.prems have "k \<in> set keys" and "map_of (dict_set key x c) k = Some v"
        by (auto simp: map_of_dict_set)
      with Cons.IH Cons.prems(3) have "clamp_scores keys (dict_set key x c) = Inl TypeError"
        by blast
      with Some x show ?thesis by simp
    qed
  qed
qed

lemma float_of_int_small:
  assumes "0 \<le> n" and "n \<le> 10"
  shows "float_of_int n = Inr (Fin (of_int n))"
proof -
  have "float_of_int k = Inr (Fin (of_int k))"
    if "k \<in> {0, 1, 2, 3, 4, 5, 6, 7, 8, 9, 10}" for k
    using that
    by (elim insertE emptyE; hypsubst) (simp_all add: float_of_int_def round_double_eval)
  moreover from assms have "n \<in> {0, 1, 2, 3, 4, 5, 6, 7, 8, 9, 10}" by (simp; arith)
  ultimately show ?thesis by blast
qed

lemma as_float_in_range: "score_in_range x \<Longrightarrow> \<exists>f. as_float x = Inr f"
  by (cases "(x, 0::int)" rule: py_lt.cases)
     (auto simp: score_in_range_def float_of_int_small)

lemma weighted_sum_in_range:
  assumes "score_in_range i" and "score_in_range f" and "score_in_range r"
  shows "\<exists>w. weighted_sum i f r = Inr w"
  using as_float_in_range [OF assms(1)] as_float_in_range [OF assms(2)]
    as_float_in_range [OF assms(3)]
  by (auto simp: weighted_sum_def float_times_def)

lemma score_in_range_5: "score_in_range (PInt 5)"
  by (simp add: score_in_range_def)

lemma coerce_severity_scores:
  "k \<in> set score_keys \<Longrightarrow> map_of (coerce_severity c) k = map_of c k"
  by (auto simp: coerce_severity_def score_keys_def map_of_dict_set)

lemma distinct_score_keys: "distinct score_keys"
  by (simp add: score_keys_def)

lemma validate_classification_parts:
  assumes "validate_classification c = Inr c'"
  obtains c2 w where "clamp_scores score_keys (coerce_severity c) = Inr c2"
    and "weighted_formula c2 = Inr w"
    and "c' = dict_set ''weighted_score'' (PFloat w) c2"
  using assms by (auto simp: validate_classification_def split: sum.splits)

lemma validate_score_key:
  assumes "validate_classification c = Inr c'" and "k \<in> set score_keys"
  shows "(map_of c k = None \<longrightarrow> map_of c' k = None)
       \<and> (\<forall>v. map_of c k = Some v \<longrightarrow> (\<exists>x. clamp_score v = Inr x \<and> map_of c' k = Some x))"
proof -
  from assms(1) obtain c2 w where
    c2: "clamp_scores score_keys (coerce_severity c) = Inr c2"
    and c': "c' = dict_set ''weighted_score'' (PFloat w) c2"
    by (rule validate_classification_parts)
  from assms(2) have k: "map_of c' k = map_of c2 k"
    unfolding c' by (auto simp: map_of_dict_set score_keys_def)
  have "map_of c k = None \<longrightarrow> map_of c2 k = None"
    using clamp_scores_absent [OF c2, of k] assms(2) by (simp add: coerce_severity_scores)
  moreover have "\<forall>v. map_of c k = Some v \<longrightarrow> (\<exists>x. clamp_score v = Inr x \<and> map_of c2 k = Some x)"
    using clamp_scores_key [OF c2 distinct_score_keys assms(2)] assms(2)
    by (simp add: coerce_severity_scores)
  ultimately show ?thesis by (simp add: k)
qed

lemma validate_returns:
  assumes "\<And>k v. k \<in> set score_keys \<Longrightarrow> map_of c k = Some v \<Longrightarrow> is_number v"
  shows "\<exists>c'. validate_classification c = Inr c'"
proof -
  have "\<exists>c2. clamp_scores score_keys (coerce_severity c) = Inr c2"
    by (rule clamp_scores_returns) (use assms in \<open>simp add: coerce_severity_scores\<close>)
  then obtain c2 where c2: "clamp_scores score_keys (coerce_severity c) = Inr c2" ..
  have range: "score_in_range (dict_get c2 k (PInt 5))" if "k \<in> set score_keys" for k
  proof (cases "map_of (coerce_severity c) k")
    case None
    with c2 have "map_of c2 k = None" by (rule clamp_scores_absent)
    then show ?thesis by (simp add: dict_get_def score_in_range_5)
  next
    case (Some v)
    from clamp_scores_key [OF c2 distinct_score_keys that Some]
    show ?thesis by (auto simp: dict_get_def clamp_score_in_range)
  qed
  have "\<exists>w. weighted_formula c2 = Inr w"
    unfolding weighted_formula_def
    by (intro weighted_sum_in_range range) (simp_all add: score_keys_def)
  with c2 show ?thesis
    by (auto simp: validate_classification_def)
qed

lemma validate_raises:
  assumes "k \<in> set score_keys" and "map_of c k = Some v" and "\<not> is_number v"
  shows "validate_classification c = Inl TypeError"
proof -
  from assms have "clamp_scores score_keys (coerce_severity c) = Inl TypeError"
    by (intro clamp_scores_raises [of k _ _ v]) (simp_all add: coerce_severity_scores)
  then show ?thesis by (simp add: validate_classification_def)
qed

lemma validate_severity:
  assumes "validate_classification c = Inr c'"
  shows "map_of c' ''severity'' = map_of (coerce_severity c) ''severity''"
proof -
  from assms obtain c2 w where
    c2: "clamp_scores score_keys (coerce_severity c) = Inr c2"
    and c': "c' = dict_set ''weighted_score'' (PFloat w) c2"
    by (rule validate_classification_parts)
  have "map_of c2 ''severity'' = map_of (coerce_severity c) ''severity''"
    using c2 by (rule clamp_scores_other) (simp add: score_keys_def)
  then show ?thesis unfolding c' by (simp add: map_of_dict_set)
qed

lemmas classifier_eval =
  validate_classification_def coerce_severity_def score_keys_def valid_severities_def
  dict_get_def clamp_score_def py_min_def py_max_def weighted_formula_def weighted_sum_def
  float_times_def float_of_int_def round_double_eval

lemma validate_default:
  "validate_classification default_classification = Inr default_classification"
  by (simp add: default_classification_def classifier_eval)

lemma validate_fallback:
  "validate_classification (fallback_parse response) = Inr (fallback_parse response)"
  by (simp add: fallback_parse_def classifier_eval)

section \<open>Parsing\<close>

lemma add_weighted_score_error:
  "add_weighted_score c = Inl e \<Longrightarrow> e = TypeError \<or> e = OverflowError"
  by (auto simp: add_weighted_score_def weighted_formula_def split: if_splits sum.splits
      dest: weighted_sum_error)

lemma add_weighted_score_keys:
  "add_weighted_score d = Inr c \<Longrightarrow> k \<noteq> ''weighted_score'' \<Longrightarrow> map_of c k = map_of d k"
  by (auto simp: add_weighted_score_def map_of_dict_set split: if_splits sum.splits)

lemma add_weighted_score_fallback:
  "add_weighted_score (fallback_parse response) = Inr (fallback_parse response)"
  by (simp add: add_weighted_score_def fallback_parse_def)

lemma parse_no_object:
  "search_json response = None \<Longrightarrow>
     parse_classification loads response = Inr (fallback_parse response)"
  by (simp add: parse_classification_def parse_body_def add_weighted_score_fallback)

lemma parse_decode_error:
  "search_json response = Some json_str \<Longrightarrow> loads json_str = Inl JSONDecodeError \<Longrightarrow>
     parse_classification loads response = Inr default_classification"
  by (simp add: parse_classification_def parse_body_def)

lemma parse_object:
  assumes "search_json response = Some json_str" and "loads json_str = Inr d"
  shows "parse_classification loads response = add_weighted_score d"
  using assms add_weighted_score_error [of d]
  by (auto simp: parse_classification_def parse_body_def split: sum.splits)

lemma classify_eq:
  assumes "generate (bug_classification_prompt em tc ep) (round_double (2 / 10)) = Inr response"
    and "parse_classification loads response = Inr parsed"
    and "validate_classification parsed = Inr c"
  shows "classify loads generate h em tc ep
           = Inr (c, h @ [\<lparr>item_endpoint = ep, item_classification = c\<rparr>])"
  using assms by (simp add: classify_def)

lemma classify_decode_error:
  assumes "generate (bug_classification_prompt em tc ep) (round_double (2 / 10)) = Inr response"
    and "search_json response = Some json_str"
    and "loads json_str = Inl JSONDecodeError"
  shows "classify loads generate h em tc ep
           = Inr (default_classification,
                  h @ [\<lparr>item_endpoint = ep, item_classification = default_classification\<rparr>])"
  using assms(1) parse_decode_error [of response json_str loads, OF assms(2,3)] validate_default
  by (rule classify_eq)

lemma classify_non_numeric_score:
  assumes "generate (bug_classification_prompt em tc ep) (round_double (2 / 10)) = Inr response"
    and "search_json response = Some json_str"
    and "loads json_str = Inr d"
    and "k \<in> set score_keys" and "map_of d k = Some v" and "\<not> is_number v"
  shows "\<exists>e. classify loads generate h em tc ep = Inl e \<and> (e = TypeError \<or> e = OverflowError)"
proof (cases "add_weighted_score d")
  case (Inl e)
  then have "parse_classification loads response = Inl e"
    using parse_object [of response json_str loads d, OF assms(2,3)] by simp
  with assms(1) have "classify loads generate h em tc ep = Inl e"
    by (simp add: classify_def)
  with add_weighted_score_error [OF Inl] show ?thesis by simp
next
  case (Inr c)
  from assms(4) have "k \<noteq> ''weighted_score''" by (auto simp: score_keys_def)
  with Inr assms(5) have "map_of c k = Some v"
    by (simp add: add_weighted_score_keys)
  with assms(4,6) have "validate_classification c = Inl TypeError"
    by (intro validate_raises)
  moreover have "parse_classification loads response = Inr c"
    using parse_object [of response json_str loads d, OF assms(2,3)] Inr by simp
  ultimately have "classify loads generate h em tc ep = Inl TypeError"
    using assms(1) by (simp add: classify_def)
  then show ?thesis by simp
qed

lemmas classify_eval =
  classify_def parse_classification_def parse_body_def example_loads_def
  add_weighted_score_def classifier_eval

section \<open>Properties of the classifier\<close>



text \<open>
  C2. The claim is that no response makes \<^verbatim>\<open>classify\<close> raise from parsing or
  validation. The response below decodes to a dictionary whose \<^verbatim>\<open>impact_score\<close> is
  the string \<^verbatim>\<open>"9"\<close>; \<^verbatim>\<open>0.5 * "9"\<close> raises \<^verbatim>\<open>TypeError\<close> inside the
  \<^verbatim>\<open>try\<close> of \<^verbatim>\<open>_parse_classification\<close>, whose \<^verbatim>\<open>except\<close> clause catches
  \<^verbatim>\<open>JSONDecodeError\<close> only, and the exception reaches the caller of \<^verbatim>\<open>classify\<close>.
  The lemma \<open>classify_non_numeric_score\<close> above is the general statement, and
  \<open>classify_decode_error\<close> is the half of the claim that holds.
\<close>

theorem classify_raises_type_error:
  "classify example_loads
     (\<lambda>prompt temperature. Inr ''{\"severity\": \"High\", \"impact_score\": \"9\"}'')
     [] ''AssertionError: assert 500 == 200'' ''Test user registration''
     ''/api/users/register''
   = Inl TypeError"
  by (simp add: classify_eval)

text \<open>
  C3. After validation every sub-score present in the classification is a number
  between 0 and 10, whatever number the decoded response held: a value of 0 or less has
  become 0, a value of 10 or more has become 10 (the infinities and NaN included), and a
  value strictly between the two is kept. Validation returns exactly when every sub-score
  present is a number (\<open>validate_returns\<close>, \<open>validate_raises\<close>).
\<close>

theorem validate_scores_in_range:
  assumes "validate_classification c = Inr c'"
    and "k \<in> set score_keys"
    and "map_of c' k = Some x"
  shows "score_in_range x
       \<and> (\<exists>v. map_of c k = Some v
              \<and> (\<forall>r. py_num v = Some r \<longrightarrow>
                     (r \<le> 0 \<longrightarrow> x = PInt 0) \<and> (10 \<le> r \<longrightarrow> x = PInt 10)
                     \<and> (0 < r \<and> r < 10 \<longrightarrow> x = v))
              \<and> (v = PFloat PosInf \<longrightarrow> x = PInt 10)
              \<and> (v = PFloat NegInf \<longrightarrow> x = PInt 0)
              \<and> (v = PFloat NaN \<longrightarrow> x = PInt 10))"
proof -
  from validate_score_key [OF assms(1,2)] assms(3) obtain v where
    v: "map_of c k = Some v" and x: "clamp_score v = Inr x"
    by (cases "map_of c k") auto
  from x have "score_in_range x" by (rule clamp_score_in_range)
  moreover have "\<forall>r. py_num v = Some r \<longrightarrow>
                     (r \<le> 0 \<longrightarrow> x = PInt 0) \<and> (10 \<le> r \<longrightarrow> x = PInt 10)
                     \<and> (0 < r \<and> r < 10 \<longrightarrow> x = v)"
    using clamp_score_value [OF x] by blast
  moreover have "(v = PFloat PosInf \<longrightarrow> x = PInt 10) \<and> (v = PFloat NegInf \<longrightarrow> x = PInt 0)
      \<and> (v = PFloat NaN \<longrightarrow> x = PInt 10)"
    using x by (auto simp: clamp_score_infinite)
  ultimately show ?thesis using v by blast
qed

theorem validate_scores_in_range_witness:
  "validate_classification
     [(''severity'', PStr ''High''), (''impact_score'', PInt 9),
      (''frequency_score'', PInt 20), (''recovery_score'', PInt (- 3))]
   = Inr [(''severity'', PStr ''High''), (''impact_score'', PInt 9),
          (''frequency_score'', PInt 10), (''recovery_score'', PInt 0),
          (''weighted_score'', PFloat (Fin (15 / 2)))]
   \<and> ''frequency_score'' \<in> set score_keys
   \<and> score_in_range (PInt 10)"
proof -
  have run: "validate_classification
     [(''severity'', PStr ''High''), (''impact_score'', PInt 9),
      (''frequency_score'', PInt 20), (''recovery_score'', PInt (- 3))]
   = Inr [(''severity'', PStr ''High''), (''impact_score'', PInt 9),
          (''frequency_score'', PInt 10), (''recovery_score'', PInt 0),
          (''weighted_score'', PFloat (Fin (15 / 2)))]"
    by (simp add: classifier_eval)
  have key: "''frequency_score'' \<in> set score_keys"
    by (simp add: score_keys_def)
  from validate_scores_in_range [OF run key, of "PInt 10"] run key
  show ?thesis by simp
qed

text \<open>
  C4. When the \<^verbatim>\<open>severity\<close> of a classification is missing or is anything but one of
  the strings \<^verbatim>\<open>Critical\<close>, \<^verbatim>\<open>High\<close>, \<^verbatim>\<open>Medium\<close> and \<^verbatim>\<open>Low\<close>, the validated
  classification has the severity \<^verbatim>\<open>Medium\<close>.
\<close>

theorem validate_coerces_severity:
  assumes "map_of c ''severity''
             \<notin> {Some (PStr ''Critical''), Some (PStr ''High''), Some (PStr ''Medium''),
                Some (PStr ''Low'')}"
    and "validate_classification c = Inr c'"
  shows "map_of c' ''severity'' = Some (PStr ''Medium'')"
proof -
  from assms(1) have "dict_get c ''severity'' PNone \<notin> set (map PStr valid_severities)"
    by (auto simp: dict_get_def valid_severities_def split: option.splits)
  then have "map_of (coerce_severity c) ''severity'' = Some (PStr ''Medium'')"
    by (simp add: coerce_severity_def map_of_dict_set)
  with validate_severity [OF assms(2)] show ?thesis by simp
qed

theorem validate_coerces_severity_witness:
  "map_of [(''severity'', PStr ''Urgent''), (''impact_score'', PInt 3)] ''severity''
     \<notin> {Some (PStr ''Critical''), Some (PStr ''High''), Some (PStr ''Medium''),
        Some (PStr ''Low'')}
   \<and> validate_classification [(''severity'', PStr ''Urgent''), (''impact_score'', PInt 3)]
       = Inr [(''severity'', PStr ''Medium''), (''impact_score'', PInt 3),
              (''weighted_score'', PFloat (Fin 4))]
   \<and> map_of [(''severity'', PStr ''Medium''), (''impact_score'', PInt 3),
              (''weighted_score'', PFloat (Fin 4))] ''severity'' = Some (PStr ''Medium'')"
proof -
  have sev: "map_of [(''severity'', PStr ''Urgent''), (''impact_score'', PInt 3)] ''severity''
     \<notin> {Some (PStr ''Critical''), Some (PStr ''High''), Some (PStr ''Medium''),
        Some (PStr ''Low'')}"
    by simp
  have run: "validate_classification [(''severity'', PStr ''Urgent''), (''impact_score'', PInt 3)]
       = Inr [(''severity'', PStr ''Medium''), (''impact_score'', PInt 3),
              (''weighted_score'', PFloat (Fin 4))]"
    by (simp add: classifier_eval)
  from validate_coerces_severity [OF sev run] sev run show ?thesis by simp
qed



section \<open>Searching in strings\<close>

lemma starts_with_iff: "starts_with s p \<longleftrightarrow> (\<exists>rest. s = p @ rest)"
  by (induction s p rule: starts_with.induct) auto

lemma str_contains_iff:
  "str_contains needle s \<longleftrightarrow> (\<exists>before after. s = before @ needle @ after)"
proof (induction s)
  case Nil
  show ?case by simp
next
  case (Cons c cs)
  have "(\<exists>before after. c # cs = before @ needle @ after)
      \<longleftrightarrow> (\<exists>after. c # cs = needle @ after) \<or> (\<exists>before after. cs = before @ needle @ after)"
    (is "?l \<longleftrightarrow> ?r")
  proof
    assume ?l
    then obtain before after where eq: "c # cs = before @ needle @ after" by blast
    show ?r
    proof (cases before)
      case Nil
      with eq have "c # cs = needle @ after" by simp
      then show ?thesis by blast
    next
      case (Cons b bs)
      with eq have "cs = bs @ needle @ after" by simp
      then show ?thesis by blast
    qed
  next
    assume ?r
    then show ?l
    proof
      assume "\<exists>after. c # cs = needle @ after"
      then obtain after where "c # cs = needle @ after" by blast
      then have "c # cs = [] @ needle @ after" by simp
      then show ?l by blast
    next
      assume "\<exists>before after. cs = before @ needle @ after"
      then obtain before after where "cs = before @ needle @ after" by blast
      then have "c # cs = (c # before) @ needle @ after" by simp
      then show ?l by blast
    qed
  qed
  with Cons.IH show ?case
    by (simp only: str_contains.simps starts_with_iff)
qed

lemma map_eq_infix_iff:
  "(\<exists>before after. map f s = before @ needle @ after)
     \<longleftrightarrow> (\<exists>before mid after. s = before @ mid @ after \<and> map f mid = needle)"
  (is "?l \<longleftrightarrow> ?r")
proof
  assume ?l
  then obtain before after where "map f s = before @ (needle @ after)" by blast
  then have "\<exists>a rest. s = a @ rest \<and> before = map f a \<and> needle @ after = map f rest"
    by (rule map_eq_append_conv [THEN iffD1])
  then obtain a rest where s: "s = a @ rest" and rest: "needle @ after = map f rest"
    by blast
  from rest have "\<exists>m c. rest = m @ c \<and> needle = map f m \<and> after = map f c"
    by (rule append_eq_map_conv [THEN iffD1])
  then obtain m c where "rest = m @ c" and "map f m = needle"
    by blast
  with s show ?r by blast
next
  assume ?r
  then obtain a m c where "s = a @ m @ c" and "map f m = needle" by blast
  then have "map f s = map f a @ needle @ map f c" by simp
  then show ?l by blast
qed

lemma occurs_ignoring_case_code:
  "occurs_ignoring_case keyword s \<longleftrightarrow> str_contains (py_lower keyword) (py_lower s)"
  unfolding occurs_ignoring_case_def str_contains_iff py_lower_def
  by (rule map_eq_infix_iff [symmetric])

lemma brace_body_Some_iff:
  "brace_body s = Some body
     \<longleftrightarrow> (\<exists>after. s = body @ ''}'' @ after \<and> CHR ''{'' \<notin> set body \<and> CHR ''}'' \<notin> set body)"
proof (induction s arbitrary: body)
  case Nil
  then show ?case by simp
next
  case (Cons c cs)
  show ?case
  proof (cases "c = CHR ''}'' \<or> c = CHR ''{''")
    case True
    then show ?thesis
      by (cases body) auto
  next
    case False
    then show ?thesis
      using Cons.IH by (cases body) auto
  qed
qed

lemma search_json_None_iff: "search_json s = None \<longleftrightarrow> \<not> has_brace_object s"
proof (induction s)
  case Nil
  then show ?case by (simp add: has_brace_object_def)
next
  case (Cons c cs)
  have split: "has_brace_object (c # cs)
      \<longleftrightarrow> (c = CHR ''{'' \<and> (\<exists>body. brace_body cs = Some body)) \<or> has_brace_object cs"
    (is "?l \<longleftrightarrow> ?r")
  proof
    assume ?l
    then obtain before body after where
      eq: "c # cs = before @ ''{'' @ body @ ''}'' @ after"
      and body: "CHR ''{'' \<notin> set body" "CHR ''}'' \<notin> set body"
      by (auto simp: has_brace_object_def)
    show ?r
    proof (cases before)
      case Nil
      with eq have "c = CHR ''{''" and "cs = body @ ''}'' @ after" by auto
      with body have "c = CHR ''{'' \<and> brace_body cs = Some body"
        by (auto simp: brace_body_Some_iff)
      then show ?thesis by blast
    next
      case (Cons b bs)
      with eq have "cs = bs @ ''{'' @ body @ ''}'' @ after" by simp
      with body have "has_brace_object cs"
        unfolding has_brace_object_def by blast
      then show ?thesis ..
    qed
  next
    assume ?r
    then show ?l
    proof
      assume "c = CHR ''{'' \<and> (\<exists>body. brace_body cs = Some body)"
      then obtain body after where "c # cs = [] @ ''{'' @ body @ ''}'' @ after"
        and "CHR ''{'' \<notin> set body" and "CHR ''}'' \<notin> set body"
        by (auto simp: brace_body_Some_iff)
      then show ?l unfolding has_brace_object_def by blast
    next
      assume "has_brace_object cs"
      then obtain before body after where
        "c # cs = (c # before) @ ''{'' @ body @ ''}'' @ after"
        and "CHR ''{'' \<notin> set body" and "CHR ''}'' \<notin> set body"
        by (auto simp: has_brace_object_def)
      then show ?l unfolding has_brace_object_def by blast
    qed
  qed
  show ?case
    using Cons.IH by (auto simp: split split: option.splits)
qed

lemma fallback_parse_severity:
  "fallback_parse response =
     [(''severity'',
         PStr (if occurs_ignoring_case ''critical'' response then ''Critical''
               else if occurs_ignoring_case ''high'' response then ''High''
               else if occurs_ignoring_case ''low'' response then ''Low''
               else ''Medium'')),
      (''impact_score'', PInt 5),
      (''frequency_score'', PInt 5),
      (''recovery_score'', PInt 5),
      (''weighted_score'', PFloat (Fin 5)),
      (''reasoning'', PStr ''Parsed from unstructured response'')]"
proof -
  have "py_lower ''critical'' = ''critical''" "py_lower ''high'' = ''high''"
    "py_lower ''low'' = ''low''"
    by (simp_all add: py_lower_def lower_char_Char)
  then show ?thesis
    by (simp add: fallback_parse_def occurs_ignoring_case_code)
qed

text \<open>
  C5. A response that holds no brace-delimited object is classified by the fallback:
  the three sub-scores are 5, the weighted score is 5.0, the reasoning is
  \<^verbatim>\<open>Parsed from unstructured response\<close>, and the severity is \<^verbatim>\<open>Critical\<close> when
  \<^verbatim>\<open>critical\<close> occurs in the response in any mix of cases, else \<^verbatim>\<open>High\<close> when
  \<^verbatim>\<open>high\<close> does, else \<^verbatim>\<open>Low\<close> when \<^verbatim>\<open>low\<close> does, and \<^verbatim>\<open>Medium\<close> otherwise.
  This is the classification \<^verbatim>\<open>classify\<close> returns and stores.
\<close>

theorem classify_unstructured_response:
  assumes "\<not> has_brace_object response"
    and "generate (bug_classification_prompt em tc ep) (round_double (2 / 10)) = Inr response"
  shows "classify loads generate h em tc ep =
           (let c = [(''severity'',
                        PStr (if occurs_ignoring_case ''critical'' response then ''Critical''
                              else if occurs_ignoring_case ''high'' response then ''High''
                              else if occurs_ignoring_case ''low'' response then ''Low''
                              else ''Medium'')),
                     (''impact_score'', PInt 5),
                     (''frequency_score'', PInt 5),
                     (''recovery_score'', PInt 5),
                     (''weighted_score'', PFloat (Fin 5)),
                     (''reasoning'', PStr ''Parsed from unstructured response'')]
            in Inr (c, h @ [\<lparr>item_endpoint = ep, item_classification = c\<rparr>]))"
proof -
  from assms(1) have "search_json response = None"
    by (simp add: search_json_None_iff)
  then have "parse_classification loads response = Inr (fallback_parse response)"
    by (rule parse_no_object)
  with assms(2) have "classify loads generate h em tc ep =
      Inr (fallback_parse response,
           h @ [\<lparr>item_endpoint = ep, item_classification = fallback_parse response\<rparr>])"
    using validate_fallback by (rule classify_eq)
  then show ?thesis
    by (simp only: fallback_parse_severity Let_def)
qed

theorem classify_unstructured_response_witness:
  "(let c = [(''severity'', PStr ''Critical''),
             (''impact_score'', PInt 5),
             (''frequency_score'', PInt 5),
             (''recovery_score'', PInt 5),
             (''weighted_score'', PFloat (Fin 5)),
             (''reasoning'', PStr ''Parsed from unstructured response'')]
    in \<not> has_brace_object ''the system is critical and unrecoverable''
     \<and> classify example_loads
           (\<lambda>prompt temperature. Inr ''the system is critical and unrecoverable'')
           [] ''AssertionError: assert 500 == 200'' ''Test user registration''
           ''/api/users/register''
         = Inr (c, [\<lparr>item_endpoint = ''/api/users/register'', item_classification = c\<rparr>]))"
proof -
  have no_object: "\<not> has_brace_object ''the system is critical and unrecoverable''"
    by (simp add: search_json_None_iff [symmetric])
  have occurs: "occurs_ignoring_case ''critical'' ''the system is critical and unrecoverable''"
    by (simp add: occurs_ignoring_case_code py_lower_def lower_char_Char)
  have "(\<lambda>prompt temperature. Inr ''the system is critical and unrecoverable'' :: py_error + string)
          (bug_classification_prompt ''AssertionError: assert 500 == 200''
             ''Test user registration'' ''/api/users/register'')
          (round_double (2 / 10))
        = Inr ''the system is critical and unrecoverable''"
    by simp
  from classify_unstructured_response [OF no_object this, of example_loads "[]"] occurs no_object
  show ?thesis by (simp add: Let_def)
qed

section \<open>Exact conversions\<close>

lemma bit_length_le: "n < 2 ^ k \<Longrightarrow> bit_length n \<le> k"
proof (induction n arbitrary: k rule: bit_length.induct)
  case (1 n)
  show ?case
  proof (cases "n = 0")
    case True
    then show ?thesis by (simp add: bit_length.simps)
  next
    case False
    with "1.prems" obtain j where k: "k = Suc j"
      by (cases k) auto
    with "1.prems" have "n div 2 < 2 ^ j" by auto
    with False have "bit_length (n div 2) \<le> j" by (rule "1.IH")
    with False k show ?thesis by (subst bit_length.simps) simp
  qed
qed

lemma bit_length_pos: "0 < n \<Longrightarrow> 0 < bit_length n"
  by (subst bit_length.simps) simp

lemma round_half_even_of_int: "round_half_even (of_int k) = k"
  by (simp add: round_half_even_def)

lemma round_double_of_int_exact:
  assumes "0 < n" and "n < 2 ^ 53"
  shows "round_double (of_int n) = Fin (of_int n)"
proof -
  define l where "l = bit_length (nat n)"
  from assms have "nat n < 2 ^ 53"
    by (simp add: nat_less_iff)
  then have l53: "l \<le> 53" unfolding l_def by (rule bit_length_le)
  from assms(1) have lpos: "0 < l" unfolding l_def by (simp add: bit_length_pos)
  from assms(1) have "ilog2 \<bar>of_int n\<bar> = int l - 1"
    by (simp add: ilog2_def l_def)
  with l53 lpos have e: "max (ilog2 \<bar>of_int n\<bar> - 52) (- 1074) = - int (53 - l)"
    by simp
  have p: "pow2 (- int (53 - l)) = 1 / 2 ^ (53 - l)"
    by (simp add: pow2_def; arith)
  have "real_of_int n / pow2 (- int (53 - l)) = of_int (n * 2 ^ (53 - l))"
    by (simp add: p)
  then have m: "round_half_even (real_of_int n / pow2 (- int (53 - l))) = n * 2 ^ (53 - l)"
    by (simp only: round_half_even_of_int)
  have r: "of_int (n * 2 ^ (53 - l)) * pow2 (- int (53 - l)) = real_of_int n"
    by (simp add: p)
  from assms(2) have "real_of_int n < 2 ^ 53"
    by (metis of_int_less_iff of_int_numeral of_int_power)
  also have "(2::real) ^ 53 < 2 ^ 1024" by simp
  finally have big: "\<not> 2 ^ 1024 \<le> real_of_int n" by simp
  from assms(1) have neg: "\<not> real_of_int n \<le> - (2 ^ 1024)"
    by (smt (verit) of_int_pos zero_less_power)
  from assms(1) have "round_double (of_int n) =
      (let r = of_int (round_half_even (of_int n / pow2 (- int (53 - l)))) * pow2 (- int (53 - l))
       in if 2 ^ 1024 \<le> r then PosInf else if r \<le> - (2 ^ 1024) then NegInf else Fin r)"
    unfolding round_double_def by (simp only: e Let_def) simp
  then show ?thesis
    by (simp only: m r Let_def big neg if_False)
qed

lemma float_of_int_exact:
  assumes "0 \<le> n" and "n < 2 ^ 53"
  shows "float_of_int n = Inr (Fin (of_int n))"
proof (cases "n = 0")
  case True
  then show ?thesis by (simp add: float_of_int_def round_double_def)
next
  case False
  with assms have "round_double (of_int n) = Fin (of_int n)"
    by (intro round_double_of_int_exact) auto
  then show ?thesis by (simp add: float_of_int_def)
qed

section \<open>Statistics\<close>

lemma py_add_floats: "py_add (PFloat t) (PFloat w) = Inr (PFloat (fadd t w))"
  by (simp add: py_add_def)

lemma py_add_zero_float: "py_add (PInt 0) (PFloat w) = Inr (PFloat (fadd (Fin 0) w))"
  by (simp add: py_add_def float_of_int_def round_double_def)

lemma py_key_eq_str: "py_key_eq k (PStr s) \<longleftrightarrow> k = PStr s"
  by (cases k) (auto simp: py_key_eq_def)

lemma counts_get_str: "counts_get counts (PStr s) dflt = dict_get counts (PStr s) dflt"
  by (induction counts) (auto simp: dict_get_def py_key_eq_str)

lemma counts_set_str: "counts_set (PStr s) n counts = dict_set (PStr s) n counts"
  by (induction counts) (auto simp: py_key_eq_str)

lemma stats_loop_equal_numbers:
  "stats_loop
     [\<lparr>item_endpoint = ''/a'',
        item_classification = [(''severity'', PInt 1), (''weighted_score'', PFloat (Fin 5))]\<rparr>,
      \<lparr>item_endpoint = ''/b'',
        item_classification = [(''severity'', PBool True), (''weighted_score'', PFloat (Fin 5))]\<rparr>,
      \<lparr>item_endpoint = ''/c'',
        item_classification =
          [(''severity'', PFloat (Fin 1)), (''weighted_score'', PFloat (Fin 5))]\<rparr>]
     [] (PFloat (Fin 0))
   = Inr ([(PInt 1, 3)], PFloat (Fin 15))"
  by (simp add: py_key_eq_def py_add_def round_double_eval)

lemma count_severity_Cons:
  "count_severity v (item # items) =
     (if map_of (item_classification item) ''severity'' = Some v then 1 else 0)
       + count_severity v items"
  by (simp add: count_severity_def)

lemma stats_loop_floats:
  assumes "\<forall>item \<in> set items. \<exists>s w.
             map_of (item_classification item) ''severity'' = Some (PStr s)
             \<and> map_of (item_classification item) ''weighted_score'' = Some (PFloat w)"
  shows "\<exists>counts'.
           stats_loop items counts (PFloat t)
             = Inr (counts', PFloat (foldl fadd t (weighted_scores items)))
           \<and> (\<forall>v. map_of counts' v =
                  (if count_severity v items = 0 then map_of counts v
                   else Some (dict_get counts v 0 + int (count_severity v items))))"
  using assms
proof (induction items arbitrary: counts t)
  case Nil
  then show ?case by (simp add: weighted_scores_def count_severity_def)
next
  case (Cons item items)
  from Cons.prems obtain u w where
    u: "map_of (item_classification item) ''severity'' = Some (PStr u)"
    and w: "map_of (item_classification item) ''weighted_score'' = Some (PFloat w)"
    by auto
  define counts1 where "counts1 = dict_set (PStr u) (dict_get counts (PStr u) 0 + 1) counts"
  from Cons.prems have rest: "\<forall>item \<in> set items. \<exists>s w.
             map_of (item_classification item) ''severity'' = Some (PStr s)
             \<and> map_of (item_classification item) ''weighted_score'' = Some (PFloat w)"
    by simp
  from Cons.IH [OF rest, of counts1 "fadd t w"] obtain counts' where
    loop: "stats_loop items counts1 (PFloat (fadd t w))
             = Inr (counts', PFloat (foldl fadd (fadd t w) (weighted_scores items)))"
    and tab: "\<And>v. map_of counts' v =
                  (if count_severity v items = 0 then map_of counts1 v
                   else Some (dict_get counts1 v 0 + int (count_severity v items)))"
    by blast
  have step: "stats_loop (item # items) counts (PFloat t)
                = stats_loop items counts1 (PFloat (fadd t w))"
    using u w by (simp add: py_add_floats counts1_def counts_get_str counts_set_str)
  have ws: "weighted_scores (item # items) = w # weighted_scores items"
    using w by (simp add: weighted_scores_def)
  have "map_of counts' v =
          (if count_severity v (item # items) = 0 then map_of counts v
           else Some (dict_get counts v 0 + int (count_severity v (item # items))))" for v
    using u by (simp add: tab [of v] count_severity_Cons counts1_def map_of_dict_set
        dict_get_def)
  with loop step ws show ?case by simp
qed

lemma stats_loop_history:
  assumes "h \<noteq> []"
    and "\<forall>item \<in> set h. \<exists>s w.
             map_of (item_classification item) ''severity'' = Some (PStr s)
             \<and> map_of (item_classification item) ''weighted_score'' = Some (PFloat w)"
  shows "\<exists>counts.
           stats_loop h [] (PInt 0) = Inr (counts, PFloat (float_sum (weighted_scores h)))
           \<and> (\<forall>v. map_of counts v =
                  (if count_severity v h = 0 then None
                   else Some (int (count_severity v h))))"
proof -
  from assms(1) obtain item items where h: "h = item # items"
    by (cases h) auto
  from assms(2) h obtain u w where
    u: "map_of (item_classification item) ''severity'' = Some (PStr u)"
    and w: "map_of (item_classification item) ''weighted_score'' = Some (PFloat w)"
    by auto
  from assms(2) h have rest: "\<forall>item \<in> set items. \<exists>s w.
             map_of (item_classification item) ''severity'' = Some (PStr s)
             \<and> map_of (item_classification item) ''weighted_score'' = Some (PFloat w)"
    by simp
  from stats_loop_floats [OF rest, of "[(PStr u, 1)]" "fadd (Fin 0) w"] obtain counts where
    loop: "stats_loop items [(PStr u, 1)] (PFloat (fadd (Fin 0) w))
             = Inr (counts, PFloat (foldl fadd (fadd (Fin 0) w) (weighted_scores items)))"
    and tab: "\<And>v. map_of counts v =
                  (if count_severity v items = 0 then map_of [(PStr u, 1)] v
                   else Some (dict_get [(PStr u, 1)] v 0 + int (count_severity v items)))"
    by blast
  have step: "stats_loop h [] (PInt 0)
                = stats_loop items [(PStr u, 1)] (PFloat (fadd (Fin 0) w))"
    using u w by (simp add: h py_add_zero_float)
  have ws: "float_sum (weighted_scores h) = foldl fadd (fadd (Fin 0) w) (weighted_scores items)"
    using w by (simp add: h weighted_scores_def float_sum_def)
  have "map_of counts v =
          (if count_severity v h = 0 then None else Some (int (count_severity v h)))" for v
    using u by (simp add: tab [of v] h count_severity_Cons dict_get_def)
  with loop step ws show ?thesis by simp
qed

lemma py_truediv_float:
  assumes "0 < n" and "n < 2 ^ 53"
  shows "py_truediv (PFloat t) n = fdiv t (Fin (of_int n))"
  using assms by (simp add: py_truediv_def float_of_int_exact)

lemma fdiv_returns: "b \<noteq> 0 \<Longrightarrow> \<exists>q. fdiv a (Fin b) = Inr q"
  by simp

lemma classify_entry_shape:
  assumes "classify loads generate h em tc ep = Inr (c, h')"
  shows "(\<exists>s w. map_of c ''severity'' = Some (PStr s) \<and> s \<in> set valid_severities
              \<and> map_of c ''weighted_score'' = Some (PFloat w))
       \<and> h' = h @ [\<lparr>item_endpoint = ep, item_classification = c\<rparr>]"
proof -
  from classify_result [OF assms] obtain parsed where
    v: "validate_classification parsed = Inr c"
    and h': "h' = h @ [\<lparr>item_endpoint = ep, item_classification = c\<rparr>]"
    by blast
  have "\<exists>s. map_of (coerce_severity parsed) ''severity'' = Some (PStr s)
          \<and> s \<in> set valid_severities"
    by (cases "map_of parsed ''severity''")
       (auto simp: coerce_severity_def dict_get_def map_of_dict_set valid_severities_def)
  with validate_severity [OF v] have "\<exists>s. map_of c ''severity'' = Some (PStr s)
          \<and> s \<in> set valid_severities"
    by simp
  moreover from validate_recomputed [OF v] have "\<exists>w. map_of c ''weighted_score'' = Some (PFloat w)"
    by (auto simp: weighted_score_recomputed_def split: sum.splits)
  ultimately show ?thesis using h' by blast
qed

text \<open>
  C8. \<^verbatim>\<open>get_statistics\<close> on an empty history returns the count 0, an empty
  distribution and the average 0.0. On a history with entries, each holding a string
  as its severity and a float as its \<^verbatim>\<open>weighted_score\<close> (as every entry
  \<^verbatim>\<open>classify\<close> appends does, by \<open>classify_entry_shape\<close>), it returns the number of
  entries, a distribution that maps each severity of the history to the number of entries
  that have it and holds no other key, and the binary64 sum of the weighted scores,
  taken from the left, divided by the number of entries. The number of entries is taken
  below \<open>2\<^sup>5\<^sup>3\<close>, where its conversion to a float is exact.
\<close>

theorem get_statistics_summary:
  assumes "h \<noteq> []" and "length h < 2 ^ 53"
    and "\<forall>item \<in> set h. \<exists>s w.
             map_of (item_classification item) ''severity'' = Some (PStr s)
             \<and> map_of (item_classification item) ''weighted_score'' = Some (PFloat w)"
  shows "get_statistics []
           = Inr \<lparr>total_classifications = 0, severity_distribution = [],
                  average_weighted_score = Fin 0\<rparr>
       \<and> (\<exists>distribution average.
             get_statistics h
               = Inr \<lparr>total_classifications = int (length h),
                      severity_distribution = distribution,
                      average_weighted_score = average\<rparr>
             \<and> (\<forall>v. map_of distribution v =
                    (if count_severity v h = 0 then None
                     else Some (int (count_severity v h))))
             \<and> fdiv (float_sum (weighted_scores h)) (Fin (real (length h))) = Inr average)"
proof -
  from stats_loop_history [OF assms(1,3)] obtain counts where
    loop: "stats_loop h [] (PInt 0) = Inr (counts, PFloat (float_sum (weighted_scores h)))"
    and tab: "\<forall>v. map_of counts v =
                  (if count_severity v h = 0 then None
                   else Some (int (count_severity v h)))"
    by blast
  from assms(1) have pos: "0 < int (length h)" by simp
  from assms(2) have "int (length h) < 2 ^ 53"
    by (metis of_nat_less_iff of_nat_numeral of_nat_power)
  with pos have div: "py_truediv (PFloat (float_sum (weighted_scores h))) (int (length h))
      = fdiv (float_sum (weighted_scores h)) (Fin (real (length h)))"
    by (simp add: py_truediv_float)
  from assms(1) obtain average where
    avg: "fdiv (float_sum (weighted_scores h)) (Fin (real (length h))) = Inr average"
    using fdiv_returns [of "real (length h)"] by auto
  from assms(1) loop div avg have "get_statistics h
               = Inr \<lparr>total_classifications = int (length h),
                      severity_distribution = counts,
                      average_weighted_score = average\<rparr>"
    by (simp add: get_statistics_def)
  with tab avg show ?thesis
    by (auto simp: get_statistics_def)
qed

theorem get_statistics_summary_witness:
  "(let h = [\<lparr>item_endpoint = ''/api/users/register'',
               item_classification =
                 [(''severity'', PStr ''High''), (''weighted_score'', PFloat (Fin (15 / 2)))]\<rparr>,
             \<lparr>item_endpoint = ''/api/orders'',
               item_classification =
                 [(''severity'', PStr ''Medium''), (''weighted_score'', PFloat (Fin 5))]\<rparr>,
             \<lparr>item_endpoint = ''/api/payments'',
               item_classification =
                 [(''severity'', PStr ''High''), (''weighted_score'', PFloat (Fin 4))]\<rparr>]
    in h \<noteq> [] \<and> length h < 2 ^ 53
     \<and> get_statistics h
         = Inr \<lparr>total_classifications = 3,
                severity_distribution = [(PStr ''High'', 2), (PStr ''Medium'', 1)],
                average_weighted_score = Fin (11 / 2)\<rparr>
     \<and> count_severity (PStr ''High'') h = 2
     \<and> fdiv (float_sum (weighted_scores h)) (Fin (real (length h))) = Inr (Fin (11 / 2)))"
proof -
  define h where "h = [\<lparr>item_endpoint = ''/api/users/register'',
               item_classification =
                 [(''severity'', PStr ''High''), (''weighted_score'', PFloat (Fin (15 / 2)))]\<rparr>,
             \<lparr>item_endpoint = ''/api/orders'',
               item_classification =
                 [(''severity'', PStr ''Medium''), (''weighted_score'', PFloat (Fin 5))]\<rparr>,
             \<lparr>item_endpoint = ''/api/payments'',
               item_classification =
                 [(''severity'', PStr ''High''), (''weighted_score'', PFloat (Fin 4))]\<rparr>]"
  have ne: "h \<noteq> []" and len: "length h < 2 ^ 53"
    by (simp_all add: h_def)
  have ok: "\<forall>item \<in> set h. \<exists>s w.
             map_of (item_classification item) ''severity'' = Some (PStr s)
             \<and> map_of (item_classification item) ''weighted_score'' = Some (PFloat w)"
    by (simp add: h_def)
  have run: "get_statistics h
         = Inr \<lparr>total_classifications = 3,
                severity_distribution = [(PStr ''High'', 2), (PStr ''Medium'', 1)],
                average_weighted_score = Fin (11 / 2)\<rparr>"
    by (simp add: h_def get_statistics_def py_add_def py_truediv_def py_key_eq_def
        float_of_int_def round_double_eval)
  from get_statistics_summary [OF ne len ok] obtain distribution average where
    g: "get_statistics h
          = Inr \<lparr>total_classifications = int (length h),
                 severity_distribution = distribution,
                 average_weighted_score = average\<rparr>"
    and f: "fdiv (float_sum (weighted_scores h)) (Fin (real (length h))) = Inr average"
    by blast
  from g run have "average = Fin (11 / 2)" by simp
  with f have "fdiv (float_sum (weighted_scores h)) (Fin (real (length h))) = Inr (Fin (11 / 2))"
    by (simp only:)
  moreover have "count_severity (PStr ''High'') h = 2"
    by (simp add: h_def count_severity_def)
  ultimately show ?thesis
    unfolding Let_def h_def [symmetric] using ne len run by blast
qed

section \<open>The parser of the log interpreter\<close>

lemma isspace_Char:
  "isspace (Char b0 b1 b2 b3 b4 b5 b6 b7) =
     (let n = (of_char (Char b0 b1 b2 b3 b4 b5 b6 b7) :: nat)
      in (9 \<le> n \<and> n \<le> 13) \<or> (28 \<le> n \<and> n \<le> 32) \<or> n = 133 \<or> n = 160)"
  by (simp add: isspace_def)

lemmas interp_eval =
  parse_interpretation_def primary_parse_def sections_def section_regex_def extract_section_def
  re_search_def pattern_simple_def strip_def isspace_Char lower_char_Char
  interp_fallback_parse_def dict_get_def Let_def

lemma primary_parse_eq:
  "primary_parse response =
     [(''root_cause'',
         case extract_section (section_regex ''Root Cause'') response of
           Some t \<Rightarrow> t | None \<Rightarrow> []),
      (''affected_components'',
         case extract_section (section_regex ''Affected Components'') response of
           Some t \<Rightarrow> t | None \<Rightarrow> []),
      (''recommended_fix'',
         case extract_section (section_regex ''Recommended Fix'') response of
           Some t \<Rightarrow> t | None \<Rightarrow> []),
      (''prevention'',
         case extract_section (section_regex ''Prevention'') response of
           Some t \<Rightarrow> t | None \<Rightarrow> []),
      (''raw_response'', response)]"
  by (simp add: primary_parse_def sections_def split: option.splits)

lemma lazy_group_empty_stop: "lazy_group [] s = []"
  by (cases s) simp_all

lemma re_search_simple_empty:
  "re_search (pattern_simple (section_regex title)) response = Some g \<Longrightarrow> g = []"
  by (auto simp: re_search_def pattern_simple_def section_regex_def lazy_group_empty_stop
      split: option.splits)

lemma strip_Nil: "strip [] = []"
  by (simp add: strip_def)

lemma extract_section_cases:
  "extract_section (section_regex title) response =
     (case re_search (section_regex title) response of
        Some g \<Rightarrow> Some (strip g)
      | None \<Rightarrow>
          (case re_search (pattern_simple (section_regex title)) response of
             Some g \<Rightarrow> Some []
           | None \<Rightarrow> None))"
  by (auto simp: extract_section_def strip_Nil split: option.splits
      dest: re_search_simple_empty)

lemma parse_interpretation_raw_response:
  "map_of (parse_interpretation response) ''raw_response'' = Some response"
  by (simp add: parse_interpretation_def primary_parse_eq interp_fallback_parse_def Let_def)

lemma split_blank_lines_nonempty: "split_blank_lines piece s \<noteq> []"
  by (induction piece s rule: split_blank_lines.induct) auto

lemma join_split_blank_lines: "join_blank_lines (split_blank_lines piece s) = piece @ s"
proof (induction piece s rule: split_blank_lines.induct)
  case (1 piece)
  then show ?case by simp
next
  case (2 piece c)
  then show ?case by simp
next
  case (3 piece c d cs)
  show ?case
  proof (cases "c = CHR 0x0A \<and> d = CHR 0x0A")
    case True
    then have "split_blank_lines piece (c # d # cs) = piece # split_blank_lines [] cs"
      by simp
    moreover obtain q qs where q: "split_blank_lines [] cs = q # qs"
      using split_blank_lines_nonempty [of "[]" cs] by (auto simp: neq_Nil_conv)
    moreover from True 3 have "join_blank_lines (split_blank_lines [] cs) = cs" by simp
    ultimately show ?thesis using True by simp
  next
    case False
    with 3 show ?thesis by auto
  qed
qed

lemma blank_line_snoc:
  "str_contains [CHR 0x0A, CHR 0x0A] (piece @ [c])
     \<longleftrightarrow> str_contains [CHR 0x0A, CHR 0x0A] piece
         \<or> (piece \<noteq> [] \<and> last piece = CHR 0x0A \<and> c = CHR 0x0A)"
  (is "?l \<longleftrightarrow> ?r")
proof
  assume ?l
  then obtain before after where eq: "piece @ [c] = before @ [CHR 0x0A, CHR 0x0A] @ after"
    unfolding str_contains_iff by blast
  show ?r
  proof (cases after rule: rev_cases)
    case Nil
    with eq have "piece @ [c] = (before @ [CHR 0x0A]) @ [CHR 0x0A]" by simp
    then have "piece = before @ [CHR 0x0A]" and "c = CHR 0x0A"
      by (simp_all only: append1_eq_conv)
    then show ?thesis by simp
  next
    case (snoc rest x)
    with eq have "piece @ [c] = (before @ [CHR 0x0A, CHR 0x0A] @ rest) @ [x]" by simp
    then have "piece = before @ [CHR 0x0A, CHR 0x0A] @ rest"
      by (simp only: append1_eq_conv)
    then show ?thesis unfolding str_contains_iff by blast
  qed
next
  assume ?r
  then show ?l
  proof
    assume "str_contains [CHR 0x0A, CHR 0x0A] piece"
    then obtain before after where "piece = before @ [CHR 0x0A, CHR 0x0A] @ after"
      unfolding str_contains_iff by blast
    then have "piece @ [c] = before @ [CHR 0x0A, CHR 0x0A] @ (after @ [c])" by simp
    then show ?l unfolding str_contains_iff by blast
  next
    assume a: "piece \<noteq> [] \<and> last piece = CHR 0x0A \<and> c = CHR 0x0A"
    then have "piece = butlast piece @ [CHR 0x0A]"
      by (metis append_butlast_last_id)
    with a have "piece @ [c] = butlast piece @ [CHR 0x0A, CHR 0x0A] @ []" by simp
    then show ?l unfolding str_contains_iff by blast
  qed
qed

lemma split_blank_lines_pieces:
  assumes "\<not> str_contains [CHR 0x0A, CHR 0x0A] piece"
    and "piece \<noteq> [] \<and> last piece = CHR 0x0A \<longrightarrow> s = [] \<or> hd s \<noteq> CHR 0x0A"
  shows "\<forall>p \<in> set (split_blank_lines piece s). \<not> str_contains [CHR 0x0A, CHR 0x0A] p"
  using assms
proof (induction piece s rule: split_blank_lines.induct)
  case (1 piece)
  then show ?case by simp
next
  case (2 piece c)
  then show ?case by (auto simp: blank_line_snoc)
next
  case (3 piece c d cs)
  show ?case
  proof (cases "c = CHR 0x0A \<and> d = CHR 0x0A")
    case True
    have "\<forall>p \<in> set (split_blank_lines [] cs). \<not> str_contains [CHR 0x0A, CHR 0x0A] p"
      using True by (intro "3.IH"(1)) simp_all
    with True "3.prems"(1) show ?thesis by simp
  next
    case False
    have "\<forall>p \<in> set (split_blank_lines (piece @ [c]) (d # cs)).
            \<not> str_contains [CHR 0x0A, CHR 0x0A] p"
    proof (intro "3.IH"(2) False)
      from "3.prems" show "\<not> str_contains [CHR 0x0A, CHR 0x0A] (piece @ [c])"
        by (auto simp: blank_line_snoc)
      from False show "piece @ [c] \<noteq> [] \<and> last (piece @ [c]) = CHR 0x0A
            \<longrightarrow> d # cs = [] \<or> hd (d # cs) \<noteq> CHR 0x0A"
        by auto
    qed
    with False show ?thesis by auto
  qed
qed

lemma split_blank_lines_no_blank_line:
  "\<forall>p \<in> set (split_blank_lines [] response). \<not> str_contains [CHR 0x0A, CHR 0x0A] p"
  by (rule split_blank_lines_pieces) simp_all

section \<open>Properties of the log interpreter\<close>

lemma parse_interpretation_primary:
  assumes "extract_section (section_regex ''Root Cause'') response = Some cause"
    and "cause \<noteq> []"
  shows "parse_interpretation response = primary_parse response"
  using assms by (simp add: parse_interpretation_def primary_parse_eq dict_get_def Let_def)

lemma parse_interpretation_fallback:
  assumes "extract_section (section_regex ''Root Cause'') response = None
           \<or> extract_section (section_regex ''Root Cause'') response = Some []"
  shows "parse_interpretation response = interp_fallback_parse response"
  using assms by (auto simp: parse_interpretation_def primary_parse_eq dict_get_def Let_def)

text \<open>
  C6, as stated, fails: in the response below the asterisk pattern locates the Root
  Cause section, and its lazy group stops at once at the asterisks that open the
  emphasised word, so the text it captures is empty and the fallback is used, with a
  result that differs from that of the section patterns.
\<close>

theorem fallback_when_located_counterexample:
  "re_search (section_regex ''Root Cause'')
     ''**Root Cause:** **Timeout** in the order database'' = Some []
   \<and> parse_interpretation ''**Root Cause:** **Timeout** in the order database''
       = interp_fallback_parse ''**Root Cause:** **Timeout** in the order database''
   \<and> parse_interpretation ''**Root Cause:** **Timeout** in the order database''
       \<noteq> primary_parse ''**Root Cause:** **Timeout** in the order database''
   \<and> map_of (parse_interpretation ''**Root Cause:** **Timeout** in the order database'')
         ''root_cause''
       = Some ''**Root Cause:** **Timeout** in the order database''"
  by (simp add: interp_eval)

text \<open>
  C6, amended. \<^verbatim>\<open>_parse_interpretation\<close> uses the paragraph-splitting fallback
  exactly when the section patterns leave \<^verbatim>\<open>root_cause\<close> empty. They do whenever
  neither pattern locates the Root Cause section, and also when the asterisk pattern
  locates it and the text it captures is empty once stripped; when that text is not
  empty, the fallback is not used and \<^verbatim>\<open>root_cause\<close> is the stripped text. The
  fallback splits the response at every blank line, strips the blocks, drops the empty
  ones and gives the first four of the rest, in order, to \<^verbatim>\<open>root_cause\<close>,
  \<^verbatim>\<open>affected_components\<close>, \<^verbatim>\<open>recommended_fix\<close> and \<^verbatim>\<open>prevention\<close>, with the
  placeholder of the field where a block is missing.
\<close>

theorem parse_interpretation_fallback_use:
  "parse_interpretation response =
     (if dict_get (primary_parse response) ''root_cause'' [] = []
      then interp_fallback_parse response else primary_parse response)
   \<and> (re_search (section_regex ''Root Cause'') response = None
        \<and> re_search (pattern_simple (section_regex ''Root Cause'')) response = None
      \<longrightarrow> parse_interpretation response = interp_fallback_parse response)
   \<and> (\<forall>g. re_search (section_regex ''Root Cause'') response = Some g \<and> strip g = []
      \<longrightarrow> parse_interpretation response = interp_fallback_parse response)
   \<and> (\<forall>g. re_search (section_regex ''Root Cause'') response = Some g \<and> strip g \<noteq> []
      \<longrightarrow> parse_interpretation response = primary_parse response
          \<and> map_of (parse_interpretation response) ''root_cause'' = Some (strip g))
   \<and> (let blocks = split_blank_lines [] response;
            paragraphs = filter (\<lambda>p. p \<noteq> []) (map strip blocks)
        in join_blank_lines blocks = response
         \<and> (\<forall>p \<in> set blocks. \<not> str_contains [CHR 0x0A, CHR 0x0A] p)
         \<and> interp_fallback_parse response =
             [(''root_cause'',
                 if 0 < length paragraphs then paragraphs ! 0
                 else ''Unable to determine root cause''),
              (''affected_components'',
                 if 1 < length paragraphs then paragraphs ! 1 else ''Unknown''),
              (''recommended_fix'',
                 if 2 < length paragraphs then paragraphs ! 2
                 else ''Manual investigation required''),
              (''prevention'',
                 if 3 < length paragraphs then paragraphs ! 3 else ''N/A''),
              (''raw_response'', response)])"
proof -
  have use: "parse_interpretation response =
     (if dict_get (primary_parse response) ''root_cause'' [] = []
      then interp_fallback_parse response else primary_parse response)"
    by (simp add: parse_interpretation_def Let_def)
  have neither: "parse_interpretation response = interp_fallback_parse response"
    if "re_search (section_regex ''Root Cause'') response = None"
      and "re_search (pattern_simple (section_regex ''Root Cause'')) response = None"
    using that by (intro parse_interpretation_fallback) (simp add: extract_section_cases)
  have empty: "parse_interpretation response = interp_fallback_parse response"
    if "re_search (section_regex ''Root Cause'') response = Some g" and "strip g = []" for g
    using that by (intro parse_interpretation_fallback) (simp add: extract_section_cases)
  have full: "parse_interpretation response = primary_parse response
          \<and> map_of (parse_interpretation response) ''root_cause'' = Some (strip g)"
    if "re_search (section_regex ''Root Cause'') response = Some g" and "strip g \<noteq> []" for g
  proof -
    from that have e: "extract_section (section_regex ''Root Cause'') response = Some (strip g)"
      by (simp add: extract_section_cases)
    from e that(2) have "parse_interpretation response = primary_parse response"
      by (rule parse_interpretation_primary)
    with e show ?thesis by (simp add: primary_parse_eq)
  qed
  have blocks: "(let blocks = split_blank_lines [] response;
            paragraphs = filter (\<lambda>p. p \<noteq> []) (map strip blocks)
        in join_blank_lines blocks = response
         \<and> (\<forall>p \<in> set blocks. \<not> str_contains [CHR 0x0A, CHR 0x0A] p)
         \<and> interp_fallback_parse response =
             [(''root_cause'',
                 if 0 < length paragraphs then paragraphs ! 0
                 else ''Unable to determine root cause''),
              (''affected_components'',
                 if 1 < length paragraphs then paragraphs ! 1 else ''Unknown''),
              (''recommended_fix'',
                 if 2 < length paragraphs then paragraphs ! 2
                 else ''Manual investigation required''),
              (''prevention'',
                 if 3 < length paragraphs then paragraphs ! 3 else ''N/A''),
              (''raw_response'', response)])"
    unfolding Let_def
  proof (intro conjI)
    show "join_blank_lines (split_blank_lines [] response) = response"
      by (simp add: join_split_blank_lines)
    show "\<forall>p \<in> set (split_blank_lines [] response). \<not> str_contains [CHR 0x0A, CHR 0x0A] p"
      by (rule split_blank_lines_no_blank_line)
  qed (simp only: interp_fallback_parse_def Let_def)
  from neither have neither': "re_search (section_regex ''Root Cause'') response = None
        \<and> re_search (pattern_simple (section_regex ''Root Cause'')) response = None
      \<longrightarrow> parse_interpretation response = interp_fallback_parse response"
    by blast
  from empty have empty': "\<forall>g. re_search (section_regex ''Root Cause'') response = Some g
        \<and> strip g = []
      \<longrightarrow> parse_interpretation response = interp_fallback_parse response"
    by blast
  from full have full': "\<forall>g. re_search (section_regex ''Root Cause'') response = Some g
        \<and> strip g \<noteq> []
      \<longrightarrow> parse_interpretation response = primary_parse response
          \<and> map_of (parse_interpretation response) ''root_cause'' = Some (strip g)"
    by blast
  from use neither' empty' full' blocks show ?thesis
    by (intro conjI)
qed

theorem parse_interpretation_fallback_use_witness:
  "re_search (section_regex ''Root Cause'') ''the disk is full'' = None
   \<and> re_search (pattern_simple (section_regex ''Root Cause'')) ''the disk is full'' = None
   \<and> parse_interpretation ''the disk is full'' =
       [(''root_cause'', ''the disk is full''),
        (''affected_components'', ''Unknown''),
        (''recommended_fix'', ''Manual investigation required''),
        (''prevention'', ''N/A''),
        (''raw_response'', ''the disk is full'')]
   \<and> re_search (section_regex ''Root Cause'') ''**Root Cause:** disk full'' = Some ''disk full''
   \<and> strip ''disk full'' \<noteq> []
   \<and> map_of (parse_interpretation ''**Root Cause:** disk full'') ''root_cause''
       = Some ''disk full''
   \<and> re_search (section_regex ''Root Cause'') ''**Root Cause:** **Timeout**'' = Some []
   \<and> strip [] = []
   \<and> parse_interpretation ''**Root Cause:** **Timeout**''
       = interp_fallback_parse ''**Root Cause:** **Timeout**''"
proof -
  have none: "re_search (section_regex ''Root Cause'') ''the disk is full'' = None"
    "re_search (pattern_simple (section_regex ''Root Cause'')) ''the disk is full'' = None"
    by (simp_all add: interp_eval)
  have fb: "interp_fallback_parse ''the disk is full'' =
       [(''root_cause'', ''the disk is full''),
        (''affected_components'', ''Unknown''),
        (''recommended_fix'', ''Manual investigation required''),
        (''prevention'', ''N/A''),
        (''raw_response'', ''the disk is full'')]"
    by (simp add: interp_eval)
  have some: "re_search (section_regex ''Root Cause'') ''**Root Cause:** disk full''
                = Some ''disk full''"
    and full: "strip ''disk full'' \<noteq> []" "strip ''disk full'' = ''disk full''"
    by (simp_all add: interp_eval)
  have some': "re_search (section_regex ''Root Cause'') ''**Root Cause:** **Timeout**'' = Some []"
    and empty: "strip [] = []"
    by (simp_all add: interp_eval)
  from parse_interpretation_fallback_use [of "''the disk is full''"] none
  have 1: "parse_interpretation ''the disk is full'' = interp_fallback_parse ''the disk is full''"
    by blast
  from parse_interpretation_fallback_use [of "''**Root Cause:** disk full''"] some full(1)
  have 2: "map_of (parse_interpretation ''**Root Cause:** disk full'') ''root_cause''
       = Some (strip ''disk full'')"
    by blast
  from parse_interpretation_fallback_use [of "''**Root Cause:** **Timeout**''"] some' empty
  have 3: "parse_interpretation ''**Root Cause:** **Timeout**''
       = interp_fallback_parse ''**Root Cause:** **Timeout**''"
    by blast
  from 1 2 3 none fb some some' full empty show ?thesis
    by (simp only:) simp
qed

text \<open>
  C7, as stated, fails: the response below holds the three labelled sections and no
  Prevention section, the asterisk pattern locates each of the three, and the result
  has the placeholder \<^verbatim>\<open>N/A\<close> for \<^verbatim>\<open>prevention\<close>. The lazy group of the Root Cause
  pattern stops at the asterisks of the emphasised word, \<^verbatim>\<open>root_cause\<close> stays empty,
  and the fallback replaces the whole result.
\<close>

theorem no_prevention_placeholder_counterexample:
  "re_search (section_regex ''Root Cause'')
     ''**Root Cause:** **Timeout** in db\<newline>\<newline>**Affected Components:** db\<newline>\<newline>**Recommended Fix:** restart''
     = Some []
   \<and> extract_section (section_regex ''Affected Components'')
       ''**Root Cause:** **Timeout** in db\<newline>\<newline>**Affected Components:** db\<newline>\<newline>**Recommended Fix:** restart''
     = Some ''db''
   \<and> extract_section (section_regex ''Recommended Fix'')
       ''**Root Cause:** **Timeout** in db\<newline>\<newline>**Affected Components:** db\<newline>\<newline>**Recommended Fix:** restart''
     = Some ''restart''
   \<and> re_search (section_regex ''Prevention'')
       ''**Root Cause:** **Timeout** in db\<newline>\<newline>**Affected Components:** db\<newline>\<newline>**Recommended Fix:** restart''
     = None
   \<and> re_search (pattern_simple (section_regex ''Prevention''))
       ''**Root Cause:** **Timeout** in db\<newline>\<newline>**Affected Components:** db\<newline>\<newline>**Recommended Fix:** restart''
     = None
   \<and> parse_interpretation
       ''**Root Cause:** **Timeout** in db\<newline>\<newline>**Affected Components:** db\<newline>\<newline>**Recommended Fix:** restart''
     = [(''root_cause'', ''**Root Cause:** **Timeout** in db''),
        (''affected_components'', ''**Affected Components:** db''),
        (''recommended_fix'', ''**Recommended Fix:** restart''),
        (''prevention'', ''N/A''),
        (''raw_response'',
         ''**Root Cause:** **Timeout** in db\<newline>\<newline>**Affected Components:** db\<newline>\<newline>**Recommended Fix:** restart'')]"
  by (simp add: interp_eval)

text \<open>
  C7, amended. When the Root Cause section of a response is parseable, that is when
  the section patterns store a text for it that is not empty, when either pattern
  locates the Affected Components and the Recommended Fix sections, and when neither
  pattern locates a Prevention section, the result is the one of the section patterns:
  the three texts, and the empty string (no placeholder) for \<^verbatim>\<open>prevention\<close>.
\<close>

theorem parse_interpretation_no_prevention:
  assumes "parseable_section ''Root Cause'' response cause"
    and "extract_section (section_regex ''Affected Components'') response = Some affected"
    and "extract_section (section_regex ''Recommended Fix'') response = Some remedy"
    and "re_search (section_regex ''Prevention'') response = None"
    and "re_search (pattern_simple (section_regex ''Prevention'')) response = None"
  shows "parse_interpretation response =
           [(''root_cause'', cause),
            (''affected_components'', affected),
            (''recommended_fix'', remedy),
            (''prevention'', []),
            (''raw_response'', response)]
       \<and> map_of (parse_interpretation response) ''prevention'' = Some []"
proof -
  from assms(1) have "parse_interpretation response = primary_parse response"
    by (intro parse_interpretation_primary [of response cause])
       (simp_all add: parseable_section_def)
  moreover from assms(4,5) have "extract_section (section_regex ''Prevention'') response = None"
    by (simp add: extract_section_cases)
  ultimately show ?thesis
    using assms(1,2,3) by (simp add: primary_parse_eq parseable_section_def)
qed

theorem parse_interpretation_no_prevention_witness:
  "(let response =
          ''**Root Cause:** disk full\<newline>\<newline>**Affected Components:** order database\<newline>\<newline>**Recommended Fix:** free some space''
    in parseable_section ''Root Cause'' response ''disk full''
     \<and> extract_section (section_regex ''Affected Components'') response
         = Some ''order database''
     \<and> extract_section (section_regex ''Recommended Fix'') response = Some ''free some space''
     \<and> re_search (section_regex ''Prevention'') response = None
     \<and> re_search (pattern_simple (section_regex ''Prevention'')) response = None
     \<and> parse_interpretation response =
           [(''root_cause'', ''disk full''),
            (''affected_components'', ''order database''),
            (''recommended_fix'', ''free some space''),
            (''prevention'', []),
            (''raw_response'', response)])"
proof -
  define response where "response =
          ''**Root Cause:** disk full\<newline>\<newline>**Affected Components:** order database\<newline>\<newline>**Recommended Fix:** free some space''"
  have a: "parseable_section ''Root Cause'' response ''disk full''"
    by (simp add: response_def parseable_section_def interp_eval)
  have b: "extract_section (section_regex ''Affected Components'') response
         = Some ''order database''"
    and c: "extract_section (section_regex ''Recommended Fix'') response = Some ''free some space''"
    by (simp_all add: response_def interp_eval)
  have d: "re_search (section_regex ''Prevention'') response = None"
    and e: "re_search (pattern_simple (section_regex ''Prevention'')) response = None"
    by (simp_all add: response_def interp_eval)
  from parse_interpretation_no_prevention [OF a b c d e] a b c d e
  show ?thesis
    unfolding Let_def response_def [symmetric] by blast
qed

lemma log_interpretation_prompt_embeds:
  "\<exists>before after. log_interpretation_prompt error_log service_name = before @ error_log @ after"
proof -
  have "log_interpretation_prompt error_log service_name =
          concat
            [''You are a debugging expert analyzing a system failure. Provide a clear, human-readable explanation of what went wrong and how to fix it.\<newline>'',
             ''\<newline>'',
             ''**Service:** '',
             service_name,
             ''\<newline>'',
             ''\<newline>'',
             ''**Error Log:**\<newline>'']
          @ error_log
          @ concat
              [''\<newline>'',
               ''\<newline>'',
               ''**Your Task:**\<newline>'',
               ''1. Identify the root cause of the failure\<newline>'',
               ''2. Explain what components are affected\<newline>'',
               ''3. Provide actionable remediation steps\<newline>'',
               ''4. Suggest preventive measures\<newline>'',
               ''\<newline>'',
               ''**Output Format:**\<newline>'',
               ''Provide your analysis in this structure:\<newline>'',
               ''\<newline>'',
               ''**Root Cause:**\<newline>'',
               ''<One clear sentence explaining what caused the failure>\<newline>'',
               ''\<newline>'',
               ''**Affected Components:**\<newline>'',
               ''<List the impacted services, endpoints, or data>\<newline>'',
               ''\<newline>'',
               ''**Recommended Fix:**\<newline>'',
               ''<Step-by-step remediation instructions>\<newline>'',
               ''\<newline>'',
               ''**Prevention:**\<newline>'',
               ''<Suggestions to prevent similar issues>\<newline>'',
               ''\<newline>'',
               ''Analyze this error now:'']"
    by (simp add: log_interpretation_prompt_def)
  then show ?thesis by blast
qed

text \<open>
  C9. The result of \<^verbatim>\<open>interpret\<close> holds under \<^verbatim>\<open>original_log\<close> the first 500
  characters of the error log, which is the whole log when it has no more than 500; the
  prompt the model is run on holds the whole error log, and the response to that prompt
  is the one the result is parsed from.
\<close>

theorem interpret_log_original_log:
  assumes "generate (log_interpretation_prompt error_log service_name) (round_double (3 / 10))
             = Inr response"
  shows "\<exists>result.
           interpret_log generate h error_log service_name
             = Inr (result, h @ [\<lparr>item_service = service_name, item_interpretation = result\<rparr>])
           \<and> map_of result ''original_log'' = Some (take 500 error_log)
           \<and> (length error_log \<le> 500 \<longrightarrow> map_of result ''original_log'' = Some error_log)
           \<and> map_of result ''raw_response'' = Some response
           \<and> (\<exists>before after.
                 log_interpretation_prompt error_log service_name = before @ error_log @ after)"
  using assms log_interpretation_prompt_embeds [of error_log service_name]
  by (simp add: interpret_log_def map_of_dict_set parse_interpretation_raw_response Let_def)

theorem interpret_log_original_log_witness:
  "interpret_log (\<lambda>prompt temperature. Inr ''**Root Cause:** disk full'') []
     (replicate 600 (CHR ''x'')) ''Order Service''
   = Inr ([(''root_cause'', ''disk full''),
           (''affected_components'', []),
           (''recommended_fix'', []),
           (''prevention'', []),
           (''raw_response'', ''**Root Cause:** disk full''),
           (''service_name'', ''Order Service''),
           (''original_log'', replicate 500 (CHR ''x''))],
          [\<lparr>item_service = ''Order Service'',
            item_interpretation =
              [(''root_cause'', ''disk full''),
               (''affected_components'', []),
               (''recommended_fix'', []),
               (''prevention'', []),
               (''raw_response'', ''**Root Cause:** disk full''),
               (''service_name'', ''Order Service''),
               (''original_log'', replicate 500 (CHR ''x''))]\<rparr>])
   \<and> take 500 (replicate 600 (CHR ''x'')) = replicate 500 (CHR ''x'')
   \<and> length (replicate 600 (CHR ''x'')) = 600"
proof -
  have run: "interpret_log (\<lambda>prompt temperature. Inr ''**Root Cause:** disk full'') []
     (replicate 600 (CHR ''x'')) ''Order Service''
   = Inr ([(''root_cause'', ''disk full''),
           (''affected_components'', []),
           (''recommended_fix'', []),
           (''prevention'', []),
           (''raw_response'', ''**Root Cause:** disk full''),
           (''service_name'', ''Order Service''),
           (''original_log'', replicate 500 (CHR ''x''))],
          [\<lparr>item_service = ''Order Service'',
            item_interpretation =
              [(''root_cause'', ''disk full''),
               (''affected_components'', []),
               (''recommended_fix'', []),
               (''prevention'', []),
               (''raw_response'', ''**Root Cause:** disk full''),
               (''service_name'', ''Order Service''),
               (''original_log'', replicate 500 (CHR ''x''))]\<rparr>])"
    by (simp add: interpret_log_def interp_eval)
  have "(\<lambda>prompt temperature. Inr ''**Root Cause:** disk full'' :: py_error + string)
          (log_interpretation_prompt (replicate 600 (CHR ''x'')) ''Order Service'')
          (round_double (3 / 10))
        = Inr ''**Root Cause:** disk full''"
    by simp
  from interpret_log_original_log [OF this, of "[]"] run
  have "take 500 (replicate 600 (CHR ''x'')) = replicate 500 (CHR ''x'')"
    by (auto simp: map_of_dict_set)
  with run show ?thesis by simp
qed

end
